theory Spec2Isabelle
  imports Main
begin

section \<open>JavaScript strings\<close>

text \<open>
  A JavaScript string is modelled as a \<^typ>\<open>string\<close>, one \<^typ>\<open>char\<close> per code unit
  (code units below 256). The String methods used by \<^verbatim>\<open>form_submission.js\<close> are
  written out with the index arithmetic of the language: \<^verbatim>\<open>lastIndexOf\<close> answers
  \<open>-1\<close> when the pattern does not occur, \<^verbatim>\<open>slice\<close> counts a negative start from the
  end of the string, and \<^verbatim>\<open>substring\<close> treats a negative argument as \<open>0\<close>.
\<close>

definition occurs_at :: "string \<Rightarrow> string \<Rightarrow> nat \<Rightarrow> bool" where
  "occurs_at pat s i \<longleftrightarrow> take (length pat) (drop i s) = pat"

text \<open>The search of \<^verbatim>\<open>lastIndexOf\<close> runs from position \<open>k\<close> down to position \<open>0\<close>.\<close>

fun lastIndexFrom :: "string \<Rightarrow> string \<Rightarrow> nat \<Rightarrow> int" where
  "lastIndexFrom s pat 0 = (if occurs_at pat s 0 then 0 else - 1)"
| "lastIndexFrom s pat (Suc k) =
     (if occurs_at pat s (Suc k) then int (Suc k) else lastIndexFrom s pat k)"

definition lastIndexOf :: "string \<Rightarrow> string \<Rightarrow> int" where
  "lastIndexOf s pat = lastIndexFrom s pat (length s)"

definition js_slice :: "string \<Rightarrow> int \<Rightarrow> string" where
  "js_slice s start =
     (let len = int (length s);
          from = (if start < 0 then max (len + start) 0 else min start len)
      in drop (nat from) s)"

definition js_substring :: "string \<Rightarrow> int \<Rightarrow> int \<Rightarrow> string" where
  "js_substring s a b =
     (let len = int (length s);
          a' = min (max a 0) len;
          b' = min (max b 0) len;
          from = min a' b';
          to = max a' b'
      in take (nat (to - from)) (drop (nat from) s))"

text \<open>\<^verbatim>\<open>Array.prototype.join\<close> on an array of strings.\<close>

fun join :: "string \<Rightarrow> string list \<Rightarrow> string" where
  "join sep [] = []"
| "join sep [x] = x"
| "join sep (x # y # ys) = x @ sep @ join sep (y # ys)"

text \<open>
  \<^verbatim>\<open>String.prototype.trim\<close>: white space and line terminators are removed from both
  ends. In the range of \<^typ>\<open>char\<close> these are TAB, LF, VT, FF, CR, SPACE and NBSP.
\<close>

definition js_whitespace :: "char \<Rightarrow> bool" where
  "js_whitespace c \<longleftrightarrow> c \<in> {CHR 0x09, CHR 0x0A, CHR 0x0B, CHR 0x0C, CHR 0x0D, CHR 0x20, CHR 0xA0}"

definition js_trim :: "string \<Rightarrow> string" where
  "js_trim s = rev (dropWhile js_whitespace (rev (dropWhile js_whitespace s)))"

text \<open>The decimal rendering of a non-negative integer in a template literal.\<close>

definition digit_char :: "nat \<Rightarrow> char" where
  "digit_char d = ''0123456789'' ! d"

fun string_of_nat :: "nat \<Rightarrow> string" where
  "string_of_nat n =
     (if n < 10 then [digit_char n] else string_of_nat (n div 10) @ [digit_char (n mod 10)])"

declare string_of_nat.simps [simp del]

section \<open>Template engine\<close>

text \<open>
  \<^verbatim>\<open>template.replace(/\{([^}]+)\}/g, (match, placeholder) => ...)\<close>.
  The regular expression matches an opening brace, then as many characters other than
  the closing brace as there are (at least one), then a closing brace. The scan runs left
  to right; after a match it resumes behind the closing brace, and the text produced by
  the callback is copied to the output as it is.
\<close>

definition match_placeholder :: "string \<Rightarrow> (string \<times> string) option" where
  "match_placeholder cs =
     (let placeholder = takeWhile (\<lambda>c. c \<noteq> CHR ''}'') cs;
          rest = dropWhile (\<lambda>c. c \<noteq> CHR ''}'') cs
      in if placeholder \<noteq> [] \<and> rest \<noteq> [] then Some (placeholder, tl rest) else None)"

lemma match_placeholder_shorter:
  "match_placeholder cs = Some (p, rest) \<Longrightarrow> length rest < Suc (length cs)"
proof -
  assume m: "match_placeholder cs = Some (p, rest)"
  have "length (dropWhile (\<lambda>c. c \<noteq> CHR ''}'') cs) \<le> length cs"
    by (rule length_dropWhile_le)
  with m show ?thesis
    by (auto simp: match_placeholder_def Let_def split: if_splits)
qed

function replace_placeholders :: "(string \<Rightarrow> string) \<Rightarrow> string \<Rightarrow> string" where
  "replace_placeholders f [] = []"
| "replace_placeholders f (c # cs) =
     (if c = CHR ''{'' then
        (case match_placeholder cs of
           Some (placeholder, rest) \<Rightarrow> f placeholder @ replace_placeholders f rest
         | None \<Rightarrow> c # replace_placeholders f cs)
      else c # replace_placeholders f cs)"
  by pat_completeness auto
termination
  by (relation "measure (\<lambda>(f, s). length s)") (auto dest: match_placeholder_shorter)

text \<open>
  An object written as a literal has its own properties, here a finite map from names to
  strings, and inherits the members of \<^verbatim>\<open>Object.prototype\<close>. Reading \<^verbatim>\<open>obj[name]\<close>
  finds an own property first and an inherited member otherwise. The inherited members
  are functions, and \<^verbatim>\<open>__proto__\<close> is the prototype object itself; the table gives,
  for each name, the text that \<^verbatim>\<open>String.prototype.replace\<close> inserts when its callback
  returns that member (on V8, the engine that runs the script).
\<close>

definition Object_prototype :: "string \<rightharpoonup> string" where
  "Object_prototype = map_of
     [(''constructor'', ''function Object() { [native code] }''),
      (''__defineGetter__'', ''function __defineGetter__() { [native code] }''),
      (''__defineSetter__'', ''function __defineSetter__() { [native code] }''),
      (''hasOwnProperty'', ''function hasOwnProperty() { [native code] }''),
      (''__lookupGetter__'', ''function __lookupGetter__() { [native code] }''),
      (''__lookupSetter__'', ''function __lookupSetter__() { [native code] }''),
      (''isPrototypeOf'', ''function isPrototypeOf() { [native code] }''),
      (''propertyIsEnumerable'', ''function propertyIsEnumerable() { [native code] }''),
      (''toString'', ''function toString() { [native code] }''),
      (''valueOf'', ''function valueOf() { [native code] }''),
      (''__proto__'', ''[object Object]''),
      (''toLocaleString'', ''function toLocaleString() { [native code] }'')]"

definition get_property :: "(string \<rightharpoonup> string) \<Rightarrow> string \<Rightarrow> string option" where
  "get_property obj name =
     (case obj name of Some v \<Rightarrow> Some v | None \<Rightarrow> Object_prototype name)"

text \<open>
  \<^verbatim>\<open>buildFromTemplate(template, responseMap, additionalPlaceholders = {})\<close>.
  \<^verbatim>\<open>{...responseMap, ...additionalPlaceholders}\<close> has the own properties of both
  operands, the second one winning, and \<^verbatim>\<open>allPlaceholders[placeholder] ?? 'N/A'\<close>
  is \<open>N/A\<close> only when the name is neither an own property nor an inherited member.
\<close>

definition buildFromTemplate ::
  "string \<Rightarrow> (string \<rightharpoonup> string) \<Rightarrow> (string \<rightharpoonup> string) \<Rightarrow> string" where
  "buildFromTemplate template responseMap additionalPlaceholders =
     (let allPlaceholders = responseMap ++ additionalPlaceholders
      in replace_placeholders
           (\<lambda>placeholder.
              case get_property allPlaceholders placeholder of Some v \<Rightarrow> v | None \<Rightarrow> ''N/A'')
           template)"

section \<open>Form responses and configuration\<close>

text \<open>
  One \<^verbatim>\<open>ItemResponse\<close>: the title and type of its item and the value of
  \<^verbatim>\<open>getResponse()\<close>, which is \<^verbatim>\<open>null\<close> for an unanswered question, a string, or
  an array of strings (the chosen options of a checkbox question, the file ids of a file
  upload question).
\<close>

datatype item_type = TEXT | PARAGRAPH_TEXT | MULTIPLE_CHOICE | CHECKBOX | LIST | FILE_UPLOAD

datatype answer = Null | Str string | Arr "string list"

record item_response =
  title :: string
  itype :: item_type
  response :: answer

record config =
  TARGET_SHARED_DRIVE_ID :: string
  EMAIL_RECIPIENTS :: string
  ADMIN_EMAIL :: string
  EMAIL_SUBJECT_TEMPLATE :: string
  FILE_NAME_TEMPLATE :: string
  FILE_NAME_PREFIX_TEMPLATE :: string
  SPECIAL_NAMING_QUESTION_TITLE :: string
  EXCLUDE_FROM_FOLDER_NAME :: "string list"
  EXCLUDE_FROM_EMAIL_BODY :: "string list"

text \<open>The configuration object of the script as it is shipped.\<close>

definition CONFIG :: config where
  "CONFIG = \<lparr>
     TARGET_SHARED_DRIVE_ID = ''DriveID'',
     EMAIL_RECIPIENTS = ''email1@email.com,email2@email.com'',
     ADMIN_EMAIL = ''admin@email.com'',
     EMAIL_SUBJECT_TEMPLATE = ''Purchase Order Submission: {Funding Source} - {Vendor} - {Last Name}'',
     FILE_NAME_TEMPLATE = ''{Funding Source} - {Vendor} - {Last Name} - {QuestionTitle}'',
     FILE_NAME_PREFIX_TEMPLATE = ''{Funding Source} - {Vendor} - {Last Name}'',
     SPECIAL_NAMING_QUESTION_TITLE = ''Supporting Docs (SDS, Justification, etc)'',
     EXCLUDE_FROM_FOLDER_NAME = [
       ''First Name'',
       ''Do you know the funding code or name of the fund?'',
       ''Is this purchase supporting a Capstone Project, Honors Research Project, or Student Independent Research Project?'',
       ''If you answered anything but no, please give the sponsoring dept, project, and Student name'',
       ''Description of the items being ordered and a justification for the order (e.g. resistors and sensors for use in EW309 coursework)'',
       ''Does this order require an ITPRA/ITPR or RFR (Radio Frequency Review)?'',
       ''Does this order contain any hazardous materials (HAZMAT)? Examples include glue, paint, solvents, etc.  (If so, provide SDS sheet)'',
       ''Total purchase price''],
     EXCLUDE_FROM_EMAIL_BODY = [
       ''One or Two keywords word describing the items being ordered (this is used for folder naming and text in email subject lines)'',
       ''Do you know the funding code or name of the fund?'',
       ''Is this purchase supporting a Capstone Project, Honors Research Project, or Student Independent Research Project?'',
       ''If you answered anything but no, please give the sponsoring dept, project, and Student name'']
   \<rparr>"

text \<open>\<^verbatim>\<open>getResponse() ?? ''\<close>: the empty string stands in for a missing answer.\<close>

definition or_empty :: "answer \<Rightarrow> answer" where
  "or_empty a = (case a of Null \<Rightarrow> Str [] | _ \<Rightarrow> a)"

text \<open>
  The reduce of \<^verbatim>\<open>onFormSubmit\<close> that builds \<^verbatim>\<open>responseMap\<close>: one entry per title,
  a later response with the same title overwriting an earlier one. The assignment
  \<^verbatim>\<open>map[title] = ...\<close> of a string under the name \<^verbatim>\<open>__proto__\<close> goes to the inherited
  setter, which ignores a value that is no object: it adds no property.
\<close>

definition responseMap_of :: "item_response list \<Rightarrow> (string \<rightharpoonup> string)" where
  "responseMap_of itemResponses =
     foldl (\<lambda>m r. if title r = ''__proto__'' then m
                   else m(title r \<mapsto>
                          (case or_empty (response r) of
                             Arr xs \<Rightarrow> join '', '' xs
                           | Str s \<Rightarrow> s
                           | Null \<Rightarrow> [])))
       Map.empty itemResponses"

section \<open>Folder name\<close>

text \<open>
  \<^verbatim>\<open>Array.isArray(answer)? answer.join(", ") : answer.toString().trim()\<close>:
  the call of \<^verbatim>\<open>trim\<close> belongs to the second branch of the conditional.
\<close>

definition folder_part :: "item_response \<Rightarrow> string" where
  "folder_part r =
     (case or_empty (response r) of
        Arr xs \<Rightarrow> join '', '' xs
      | Str s \<Rightarrow> js_trim s
      | Null \<Rightarrow> js_trim [])"

definition buildFolderName :: "config \<Rightarrow> item_response list \<Rightarrow> string \<Rightarrow> string" where
  "buildFolderName cfg itemResponses timestamp =
     (let parts =
            filter (\<lambda>part. part \<noteq> [])
              (map folder_part
                 (filter (\<lambda>r. itype r \<noteq> FILE_UPLOAD \<and>
                              title r \<notin> set (EXCLUDE_FROM_FOLDER_NAME cfg))
                    itemResponses))
      in timestamp @ ''_PENDING_'' @ join ''_'' parts)"

section \<open>File names\<close>

text \<open>The character class \<^verbatim>\<open>[\\/:"*?<>|]\<close> and the replacement of its members by a hyphen.\<close>

definition illegal_char :: "char \<Rightarrow> bool" where
  "illegal_char c \<longleftrightarrow>
     c \<in> {CHR 0x5C, CHR ''/'', CHR '':'', CHR 0x22, CHR ''*'', CHR ''?'', CHR ''<'', CHR ''>'', CHR ''|''}"

definition sanitize :: "string \<Rightarrow> string" where
  "sanitize s = map (\<lambda>c. if illegal_char c then CHR ''-'' else c) s"

text \<open>\<^verbatim>\<open>originalName.slice(originalName.lastIndexOf('.'))\<close>\<close>

definition extension_of :: "string \<Rightarrow> string" where
  "extension_of originalName = js_slice originalName (lastIndexOf originalName ''.'')"

text \<open>The special branch's \<^verbatim>\<open>originalBaseName\<close>.\<close>

definition originalBaseName_of :: "string \<Rightarrow> string" where
  "originalBaseName_of originalName =
     (let separatorIndex = lastIndexOf originalName '' - ''
      in if separatorIndex \<noteq> - 1
         then js_substring originalName 0 separatorIndex
         else js_substring originalName 0 (lastIndexOf originalName ''.''))"

text \<open>
  The name computed in the \<^verbatim>\<open>try\<close> block of \<^verbatim>\<open>processAndRenameFiles\<close> for the file
  at position \<open>index\<close> (from 0) among the \<open>n\<close> files of the question \<open>questionTitle\<close>.
\<close>

definition newFileName ::
  "config \<Rightarrow> string \<Rightarrow> (string \<rightharpoonup> string) \<Rightarrow> nat \<Rightarrow> nat \<Rightarrow> string \<Rightarrow> string" where
  "newFileName cfg questionTitle responseMap n index originalName =
     (let extension = extension_of originalName
      in if questionTitle = SPECIAL_NAMING_QUESTION_TITLE cfg then
           (let prefix = buildFromTemplate (FILE_NAME_PREFIX_TEMPLATE cfg) responseMap Map.empty;
                sanitizedPrefix = sanitize prefix;
                originalBaseName = originalBaseName_of originalName
            in sanitizedPrefix @ '' - '' @ originalBaseName @ extension)
         else
           (let baseFileName =
                  buildFromTemplate (FILE_NAME_TEMPLATE cfg) responseMap
                    [''QuestionTitle'' \<mapsto> questionTitle];
                sanitizedBaseName = sanitize baseFileName;
                numbered =
                  (if n > 1 then sanitizedBaseName @ '' ('' @ string_of_nat (index + 1) @ '')''
                   else sanitizedBaseName)
            in numbered @ extension))"

section \<open>The platform: Drive, mail and the logger\<close>

text \<open>
  \<^verbatim>\<open>DriveApp\<close>, \<^verbatim>\<open>MailApp\<close> and \<^verbatim>\<open>Logger\<close> are services of the platform. Their
  state is a record that every call takes and returns. A call that the platform refuses
  throws: it returns \<open>Inl\<close> of the error together with the state it leaves behind.
  Every call is appended to \<open>calls\<close>, refused or not, so that the record tells what the
  script attempted.
\<close>

type_synonym file_id = string
type_synonym folder_ref = nat

datatype error =
    NoSuchFolder string
  | CreateDenied folder_ref
  | NoSuchFile file_id
  | RenameDenied file_id
  | MoveDenied file_id
  | MailRefused
  | TypeError

datatype log_msg =
    LogFolderCreated string folder_ref
  | LogRenamed string string folder_ref
  | LogFailed file_id error
  | LogError error
  | LogMailSent string

datatype mail_body = HtmlBody string | FailureReport error

datatype api_call =
    GetFolderById string
  | CreateFolder folder_ref string
  | GetFileById file_id
  | SetName file_id string
  | MoveTo file_id folder_ref
  | SendEmail string string mail_body
  | LoggerLog log_msg

record drive_file =
  fname :: string
  parent :: "folder_ref option"
  can_rename :: bool
  can_move :: bool

record drive_folder =
  folder_name :: string
  folder_parent :: "folder_ref option"
  can_create :: bool

record world =
  files :: "file_id \<rightharpoonup> drive_file"
  folder_ids :: "string \<rightharpoonup> folder_ref"
  folders :: "drive_folder list"
  mail_ok :: bool
  calls :: "api_call list"

definition called :: "api_call \<Rightarrow> world \<Rightarrow> world" where
  "called c w = w\<lparr>calls := calls w @ [c]\<rparr>"

definition Logger_log :: "log_msg \<Rightarrow> world \<Rightarrow> world" where
  "Logger_log m w = called (LoggerLog m) w"

definition getFolderById :: "string \<Rightarrow> world \<Rightarrow> (error + folder_ref) \<times> world" where
  "getFolderById fid w =
     (case folder_ids w fid of
        None \<Rightarrow> (Inl (NoSuchFolder fid), called (GetFolderById fid) w)
      | Some d \<Rightarrow> (Inr d, called (GetFolderById fid) w))"

definition createFolder :: "folder_ref \<Rightarrow> string \<Rightarrow> world \<Rightarrow> (error + folder_ref) \<times> world" where
  "createFolder p name w =
     (let w1 = called (CreateFolder p name) w
      in if p < length (folders w) \<and> can_create (folders w ! p)
         then (Inr (length (folders w)),
               w1\<lparr>folders := folders w @
                      [\<lparr>folder_name = name, folder_parent = Some p, can_create = True\<rparr>]\<rparr>)
         else (Inl (CreateDenied p), w1))"

definition getFileById :: "file_id \<Rightarrow> world \<Rightarrow> (error + drive_file) \<times> world" where
  "getFileById fid w =
     (case files w fid of
        None \<Rightarrow> (Inl (NoSuchFile fid), called (GetFileById fid) w)
      | Some f \<Rightarrow> (Inr f, called (GetFileById fid) w))"

definition setName :: "file_id \<Rightarrow> string \<Rightarrow> world \<Rightarrow> (error + unit) \<times> world" where
  "setName fid name w =
     (let w1 = called (SetName fid name) w
      in case files w fid of
           None \<Rightarrow> (Inl (NoSuchFile fid), w1)
         | Some f \<Rightarrow>
             if can_rename f
             then (Inr (), w1\<lparr>files := (files w)(fid \<mapsto> f\<lparr>fname := name\<rparr>)\<rparr>)
             else (Inl (RenameDenied fid), w1))"

definition moveTo :: "file_id \<Rightarrow> folder_ref \<Rightarrow> world \<Rightarrow> (error + unit) \<times> world" where
  "moveTo fid dest w =
     (let w1 = called (MoveTo fid dest) w
      in case files w fid of
           None \<Rightarrow> (Inl (NoSuchFile fid), w1)
         | Some f \<Rightarrow>
             if can_move f
             then (Inr (), w1\<lparr>files := (files w)(fid \<mapsto> f\<lparr>parent := Some dest\<rparr>)\<rparr>)
             else (Inl (MoveDenied fid), w1))"

definition MailApp_sendEmail ::
  "string \<Rightarrow> string \<Rightarrow> mail_body \<Rightarrow> world \<Rightarrow> (error + unit) \<times> world" where
  "MailApp_sendEmail to subject body w =
     (let w1 = called (SendEmail to subject body) w
      in if mail_ok w then (Inr (), w1) else (Inl MailRefused, w1))"

text \<open>
  \<^verbatim>\<open>Array.prototype.forEach\<close> with a callback that may throw: an exception that
  leaves the callback ends the loop and is passed on to the caller.
\<close>

fun forEach ::
  "('a \<Rightarrow> world \<Rightarrow> (error + unit) \<times> world) \<Rightarrow> 'a list \<Rightarrow> world \<Rightarrow> (error + unit) \<times> world" where
  "forEach f [] w = (Inr (), w)"
| "forEach f (x # xs) w =
     (case f x w of
        (Inl e, w') \<Rightarrow> (Inl e, w')
      | (Inr u, w') \<Rightarrow> forEach f xs w')"

section \<open>File router\<close>

text \<open>The body of the \<^verbatim>\<open>try\<close> block for one file id.\<close>

definition route_file ::
  "config \<Rightarrow> string \<Rightarrow> (string \<rightharpoonup> string) \<Rightarrow> folder_ref \<Rightarrow> nat \<Rightarrow> nat \<times> file_id \<Rightarrow>
   world \<Rightarrow> (error + unit) \<times> world" where
  "route_file cfg questionTitle responseMap destinationFolder n p w =
     (case p of (index, fileId) \<Rightarrow>
        (case getFileById fileId w of
           (Inl e, w1) \<Rightarrow> (Inl e, w1)
         | (Inr file, w1) \<Rightarrow>
             (let originalName = fname file;
                  name = newFileName cfg questionTitle responseMap n index originalName
              in case setName fileId name w1 of
                   (Inl e, w2) \<Rightarrow> (Inl e, w2)
                 | (Inr u, w2) \<Rightarrow>
                     (case moveTo fileId destinationFolder w2 of
                        (Inl e, w3) \<Rightarrow> (Inl e, w3)
                      | (Inr u, w3) \<Rightarrow>
                          (Inr (), Logger_log (LogRenamed originalName name destinationFolder) w3)))))"

text \<open>The \<^verbatim>\<open>try\<close> with its \<^verbatim>\<open>catch\<close>: the callback of the inner \<^verbatim>\<open>forEach\<close>.\<close>

definition process_file ::
  "config \<Rightarrow> string \<Rightarrow> (string \<rightharpoonup> string) \<Rightarrow> folder_ref \<Rightarrow> nat \<Rightarrow> nat \<times> file_id \<Rightarrow>
   world \<Rightarrow> (error + unit) \<times> world" where
  "process_file cfg questionTitle responseMap destinationFolder n p w =
     (case route_file cfg questionTitle responseMap destinationFolder n p w of
        (Inl e, w') \<Rightarrow> (Inr (), Logger_log (LogFailed (snd p) e) w')
      | (Inr u, w') \<Rightarrow> (Inr u, w'))"

text \<open>
  The files of one question: \<^verbatim>\<open>fileIds.forEach((fileId, index) => ...)\<close> behind the
  guard \<^verbatim>\<open>fileIds && fileIds.length > 0\<close>. The response of a file upload question
  is an array of file ids or \<^verbatim>\<open>null\<close>; a non-empty string would pass the guard and
  has no \<^verbatim>\<open>forEach\<close>.
\<close>

definition process_question ::
  "config \<Rightarrow> (string \<rightharpoonup> string) \<Rightarrow> folder_ref \<Rightarrow> item_response \<Rightarrow>
   world \<Rightarrow> (error + unit) \<times> world" where
  "process_question cfg responseMap destinationFolder itemResponse w =
     (let questionTitle = title itemResponse
      in case response itemResponse of
           Arr fileIds \<Rightarrow>
             if length fileIds > 0
             then forEach
                    (process_file cfg questionTitle responseMap destinationFolder (length fileIds))
                    (enumerate 0 fileIds) w
             else (Inr (), w)
         | Str s \<Rightarrow> if s \<noteq> [] then (Inl TypeError, w) else (Inr (), w)
         | Null \<Rightarrow> (Inr (), w))"

definition processAndRenameFiles ::
  "config \<Rightarrow> item_response list \<Rightarrow> folder_ref \<Rightarrow> (string \<rightharpoonup> string) \<Rightarrow>
   world \<Rightarrow> (error + unit) \<times> world" where
  "processAndRenameFiles cfg itemResponses destinationFolder responseMap w =
     forEach (process_question cfg responseMap destinationFolder)
       (filter (\<lambda>r. itype r = FILE_UPLOAD) itemResponses) w"

section \<open>Notification email\<close>

text \<open>\<^verbatim>\<open>text.replace(/c/g, r)\<close> for a single character \<open>c\<close>.\<close>

definition replace_char :: "char \<Rightarrow> string \<Rightarrow> string \<Rightarrow> string" where
  "replace_char c r s = concat (map (\<lambda>x. if x = c then r else [x]) s)"

definition escapeHtml :: "string \<Rightarrow> string" where
  "escapeHtml text =
     replace_char (CHR 0x27) ''&#039;''
       (replace_char (CHR 0x22) ''&quot;''
          (replace_char (CHR ''>'') ''&gt;''
             (replace_char (CHR ''<'') ''&lt;''
                (replace_char (CHR ''&'') ''&amp;'' text))))"

text \<open>The fragment that one included response adds to \<^verbatim>\<open>emailBody\<close>.\<close>

definition body_fragment :: "item_response \<Rightarrow> string" where
  "body_fragment itemResponse =
     (let questionTitle = title itemResponse;
          answer = (case response itemResponse of
                      Null \<Rightarrow> Str ''<em>No response provided</em>''
                    | a \<Rightarrow> a);
          safeTitle = escapeHtml questionTitle;
          formattedAnswer = (case answer of
                               Arr xs \<Rightarrow> escapeHtml (join '', '' xs)
                             | Str s \<Rightarrow> escapeHtml s
                             | Null \<Rightarrow> [])
      in ''<strong>'' @ safeTitle @ '':</strong> '' @ formattedAnswer @ ''<br/><br/>'')"

definition emailBody_of :: "config \<Rightarrow> item_response list \<Rightarrow> string" where
  "emailBody_of cfg itemResponses =
     foldl (\<lambda>emailBody itemResponse.
              if itype itemResponse \<noteq> FILE_UPLOAD \<and>
                 title itemResponse \<notin> set (EXCLUDE_FROM_EMAIL_BODY cfg)
              then emailBody @ body_fragment itemResponse
              else emailBody)
       [] itemResponses"

definition sendNotificationEmail ::
  "config \<Rightarrow> item_response list \<Rightarrow> string \<Rightarrow> world \<Rightarrow> (error + unit) \<times> world" where
  "sendNotificationEmail cfg itemResponses emailSubject w =
     (case MailApp_sendEmail (EMAIL_RECIPIENTS cfg) emailSubject
             (HtmlBody (emailBody_of cfg itemResponses)) w of
        (Inl e, w1) \<Rightarrow> (Inl e, w1)
      | (Inr u, w1) \<Rightarrow> (Inr (), Logger_log (LogMailSent (EMAIL_RECIPIENTS cfg)) w1))"

section \<open>Orchestrator\<close>

text \<open>
  The \<^verbatim>\<open>try\<close> block of \<^verbatim>\<open>onFormSubmit\<close>. The formatted time of the run and the
  item responses of the event are its inputs.
\<close>

definition submit_body ::
  "config \<Rightarrow> string \<Rightarrow> item_response list \<Rightarrow> world \<Rightarrow> (error + unit) \<times> world" where
  "submit_body cfg timestamp itemResponses w =
     (let responseMap = responseMap_of itemResponses;
          folderName = buildFolderName cfg itemResponses timestamp;
          emailSubject = buildFromTemplate (EMAIL_SUBJECT_TEMPLATE cfg) responseMap Map.empty
      in case getFolderById (TARGET_SHARED_DRIVE_ID cfg) w of
           (Inl e, w1) \<Rightarrow> (Inl e, w1)
         | (Inr targetDrive, w1) \<Rightarrow>
             (case createFolder targetDrive folderName w1 of
                (Inl e, w2) \<Rightarrow> (Inl e, w2)
              | (Inr newFolder, w2) \<Rightarrow>
                  (case processAndRenameFiles cfg itemResponses newFolder responseMap
                          (Logger_log (LogFolderCreated folderName newFolder) w2) of
                     (Inl e, w3) \<Rightarrow> (Inl e, w3)
                   | (Inr u, w3) \<Rightarrow> sendNotificationEmail cfg itemResponses emailSubject w3)))"

text \<open>The handler: the \<^verbatim>\<open>catch\<close> logs the error and mails the administrator.\<close>

definition onFormSubmit ::
  "config \<Rightarrow> string \<Rightarrow> item_response list \<Rightarrow> world \<Rightarrow> (error + unit) \<times> world" where
  "onFormSubmit cfg timestamp itemResponses w =
     (case submit_body cfg timestamp itemResponses w of
        (Inl e, w') \<Rightarrow>
          MailApp_sendEmail (ADMIN_EMAIL cfg)
            ''CRITICAL: Google Script Failure in Purchase Order Form''
            (FailureReport e)
            (Logger_log (LogError e) w')
      | (Inr u, w') \<Rightarrow> (Inr u, w'))"

section \<open>Notions used in the properties\<close>

text \<open>
  A text has no open brace when no opening brace stands behind its last closing brace:
  a scan that has read such a text is not inside a candidate placeholder.
\<close>

definition no_open_brace :: "string \<Rightarrow> bool" where
  "no_open_brace pre \<longleftrightarrow> CHR ''{'' \<notin> set (takeWhile (\<lambda>c. c \<noteq> CHR ''}'') (rev pre))"

text \<open>The pattern occurs somewhere in the string.\<close>

definition occurs_in :: "string \<Rightarrow> string \<Rightarrow> bool" where
  "occurs_in pat s \<longleftrightarrow> list_ex (occurs_at pat s) [0..<Suc (length s)]"

text \<open>
  The folder name as the specification words it: every remaining answer is flattened
  (a list joined with a comma and a space) and then trimmed, and the parts that are
  empty after trimming are dropped.
\<close>

definition flat_trimmed :: "item_response \<Rightarrow> string" where
  "flat_trimmed r =
     js_trim (case response r of Null \<Rightarrow> [] | Str s \<Rightarrow> s | Arr xs \<Rightarrow> join '', '' xs)"

definition folder_name_claimed :: "config \<Rightarrow> item_response list \<Rightarrow> string \<Rightarrow> string" where
  "folder_name_claimed cfg itemResponses timestamp =
     timestamp @ ''_PENDING_'' @
     join ''_''
       [p. r \<leftarrow> itemResponses, itype r \<noteq> FILE_UPLOAD,
           title r \<notin> set (EXCLUDE_FROM_FOLDER_NAME cfg),
           p \<leftarrow> [flat_trimmed r], p \<noteq> []]"

text \<open>The calls made between two states of the platform.\<close>

definition new_calls :: "world \<Rightarrow> world \<Rightarrow> api_call list" where
  "new_calls w w' = drop (length (calls w)) (calls w')"

definition is_file_call :: "api_call \<Rightarrow> bool" where
  "is_file_call c =
     (case c of GetFileById _ \<Rightarrow> True | SetName _ _ \<Rightarrow> True | MoveTo _ _ \<Rightarrow> True | _ \<Rightarrow> False)"

definition is_mail_call :: "api_call \<Rightarrow> bool" where
  "is_mail_call c = (case c of SendEmail _ _ _ \<Rightarrow> True | _ \<Rightarrow> False)"

text \<open>
  What the callback of the inner loop does to the file record it finds under the id, and
  the calls it makes, as a function of that record alone.
\<close>

definition routed ::
  "config \<Rightarrow> string \<Rightarrow> (string \<rightharpoonup> string) \<Rightarrow> folder_ref \<Rightarrow> nat \<Rightarrow> nat \<times> file_id \<Rightarrow>
   drive_file option \<Rightarrow> drive_file option \<times> api_call list" where
  "routed cfg questionTitle responseMap dest n p fo =
     (case fo of
        None \<Rightarrow> (None, [GetFileById (snd p), LoggerLog (LogFailed (snd p) (NoSuchFile (snd p)))])
      | Some f \<Rightarrow>
          (let name = newFileName cfg questionTitle responseMap n (fst p) (fname f)
           in if \<not> can_rename f then
                (Some f, [GetFileById (snd p), SetName (snd p) name,
                          LoggerLog (LogFailed (snd p) (RenameDenied (snd p)))])
              else if \<not> can_move f then
                (Some (f\<lparr>fname := name\<rparr>),
                 [GetFileById (snd p), SetName (snd p) name, MoveTo (snd p) dest,
                  LoggerLog (LogFailed (snd p) (MoveDenied (snd p)))])
              else
                (Some (f\<lparr>fname := name, parent := Some dest\<rparr>),
                 [GetFileById (snd p), SetName (snd p) name, MoveTo (snd p) dest,
                  LoggerLog (LogRenamed (fname f) name dest)])))"

text \<open>The response to a file upload question.\<close>

definition upload_of :: "string \<Rightarrow> file_id list \<Rightarrow> item_response" where
  "upload_of t fileIds = \<lparr>title = t, itype = FILE_UPLOAD, response = Arr fileIds\<rparr>"

section \<open>Example data\<close>

text \<open>
  A Drive with three uploaded files, the second of which cannot be moved, and the shared
  drive of the configuration; the same Drive with folder creation refused; a submission.
\<close>

definition plain_file :: "string \<Rightarrow> drive_file" where
  "plain_file name = \<lparr>fname = name, parent = None, can_rename = True, can_move = True\<rparr>"

definition example_world :: world where
  "example_world = \<lparr>
     files = [''id1'' \<mapsto> plain_file ''quote.pdf'',
              ''id2'' \<mapsto> (plain_file ''specs.pdf'')\<lparr>can_move := False\<rparr>,
              ''id3'' \<mapsto> plain_file ''photo.JPG''],
     folder_ids = [''DriveID'' \<mapsto> 0],
     folders = [\<lparr>folder_name = ''Purchase Orders'', folder_parent = None, can_create = True\<rparr>],
     mail_ok = True,
     calls = []\<rparr>"

definition read_only_world :: world where
  "read_only_world =
     example_world\<lparr>folders :=
       [\<lparr>folder_name = ''Purchase Orders'', folder_parent = None, can_create = False\<rparr>]\<rparr>"

definition example_submission :: "item_response list" where
  "example_submission =
     [\<lparr>title = ''Vendor'', itype = TEXT, response = Str ''Acme''\<rparr>,
      upload_of ''Upload Quote'' [''id1'', ''id2'', ''id3'']]"

definition example_answers :: "item_response list" where
  "example_answers =
     [\<lparr>title = ''Vendor'', itype = TEXT, response = Str ''  Acme ''\<rparr>,
      \<lparr>title = ''First Name'', itype = TEXT, response = Str ''Jane''\<rparr>,
      \<lparr>title = ''Notes'', itype = PARAGRAPH_TEXT, response = Null\<rparr>,
      \<lparr>title = ''Upload Quote'', itype = FILE_UPLOAD, response = Arr [''id1'']\<rparr>,
      \<lparr>title = ''Keyword'', itype = TEXT, response = Str ''Widgets''\<rparr>]"

section \<open>Properties of the template engine\<close>

lemma match_placeholder_token:
  assumes "X \<noteq> []" and "CHR ''}'' \<notin> set X"
  shows "match_placeholder (X @ CHR ''}'' # rest) = Some (X, rest)"
proof -
  have all: "\<forall>x\<in>set X. x \<noteq> CHR ''}''"
    using assms(2) by auto
  have tw: "takeWhile (\<lambda>c. c \<noteq> CHR ''}'') (X @ CHR ''}'' # rest) = X"
    using all by (simp add: takeWhile_append2)
  have dw: "dropWhile (\<lambda>c. c \<noteq> CHR ''}'') (X @ CHR ''}'' # rest) = CHR ''}'' # rest"
    using all by (simp add: dropWhile_append2)
  show ?thesis
    unfolding match_placeholder_def Let_def tw dw using assms(1) by simp
qed

lemma match_placeholder_unterminated:
  "CHR ''}'' \<notin> set cs \<Longrightarrow> match_placeholder cs = None"
  by (simp add: match_placeholder_def Let_def)

lemma match_placeholder_Some:
  assumes "match_placeholder cs = Some (p, rest)"
  shows "cs = p @ CHR ''}'' # rest \<and> p \<noteq> [] \<and> CHR ''}'' \<notin> set p"
proof -
  let ?P = "\<lambda>c. c \<noteq> CHR ''}''"
  from assms have p: "p = takeWhile ?P cs" and ne: "p \<noteq> []"
    and d: "dropWhile ?P cs \<noteq> []" and r: "rest = tl (dropWhile ?P cs)"
    by (auto simp: match_placeholder_def Let_def split: if_splits)
  from d have "hd (dropWhile ?P cs) = CHR ''}''"
    using hd_dropWhile [of ?P cs] by auto
  with d r have "dropWhile ?P cs = CHR ''}'' # rest"
    by (cases "dropWhile ?P cs") auto
  then have "cs = p @ CHR ''}'' # rest"
    using takeWhile_dropWhile_id [of ?P cs] p by simp
  moreover have "CHR ''}'' \<notin> set p"
    using p set_takeWhileD [of "CHR ''}''" ?P cs] by auto
  ultimately show ?thesis using ne by simp
qed

lemma match_placeholder_closed:
  assumes "CHR ''}'' \<in> set cs"
  shows "match_placeholder (cs @ s) =
         map_option (\<lambda>(p, rest). (p, rest @ s)) (match_placeholder cs)"
proof -
  have tw: "takeWhile (\<lambda>c. c \<noteq> CHR ''}'') (cs @ s) = takeWhile (\<lambda>c. c \<noteq> CHR ''}'') cs"
    using assms by (simp add: takeWhile_append1)
  have dw: "dropWhile (\<lambda>c. c \<noteq> CHR ''}'') (cs @ s) = dropWhile (\<lambda>c. c \<noteq> CHR ''}'') cs @ s"
    using assms by (simp add: dropWhile_append1)
  have ne: "dropWhile (\<lambda>c. c \<noteq> CHR ''}'') cs \<noteq> []"
    using assms by (simp add: dropWhile_eq_Nil_conv)
  show ?thesis
    unfolding match_placeholder_def Let_def tw dw using ne by simp
qed

lemma match_placeholder_append:
  assumes "CHR ''}'' \<notin> set s"
  shows "match_placeholder (cs @ s) =
         map_option (\<lambda>(p, rest). (p, rest @ s)) (match_placeholder cs)"
proof (cases "CHR ''}'' \<in> set cs")
  case True
  then show ?thesis by (rule match_placeholder_closed)
next
  case False
  with assms have "CHR ''}'' \<notin> set (cs @ s)" by simp
  then have "match_placeholder (cs @ s) = None"
    by (rule match_placeholder_unterminated)
  moreover have "match_placeholder cs = None"
    using False by (rule match_placeholder_unterminated)
  ultimately show ?thesis by simp
qed

lemma replace_placeholders_plain:
  "CHR ''{'' \<notin> set pre \<Longrightarrow> replace_placeholders f (pre @ t) = pre @ replace_placeholders f t"
  by (induction pre) auto

lemma replace_placeholders_token:
  "X \<noteq> [] \<Longrightarrow> CHR ''}'' \<notin> set X \<Longrightarrow>
   replace_placeholders f (CHR ''{'' # X @ CHR ''}'' # rest) = f X @ replace_placeholders f rest"
  by (simp add: match_placeholder_token)

lemma replace_placeholders_unterminated:
  "CHR ''}'' \<notin> set t \<Longrightarrow> replace_placeholders f t = t"
  by (induction t) (auto simp: match_placeholder_unterminated)

lemma replace_placeholders_tail:
  "CHR ''}'' \<notin> set s \<Longrightarrow> replace_placeholders f (t @ s) = replace_placeholders f t @ s"
proof (induction f t rule: replace_placeholders.induct)
  case (1 f)
  then show ?case by (simp add: replace_placeholders_unterminated)
next
  case (2 f c cs)
  then show ?case
    by (auto simp: match_placeholder_append split: option.splits)
qed

lemma replace_placeholders_closed:
  "a = [] \<or> last a = CHR ''}'' \<Longrightarrow>
   replace_placeholders f (a @ t) = replace_placeholders f a @ replace_placeholders f t"
proof (induction f a rule: replace_placeholders.induct)
  case (1 f)
  then show ?case by simp
next
  case (2 f c cs)
  show ?case
  proof (cases "cs = []")
    case True
    with "2.prems" have "c = CHR ''}''" by simp
    with True show ?thesis by simp
  next
    case False
    with "2.prems" have l: "last cs = CHR ''}''" by simp
    with False have mem: "CHR ''}'' \<in> set cs"
      using last_in_set [of cs] by auto
    show ?thesis
    proof (cases "c = CHR ''{''")
      case c: True
      show ?thesis
      proof (cases "match_placeholder cs")
        case None
        have "replace_placeholders f (cs @ t) = replace_placeholders f cs @ replace_placeholders f t"
          using "2.IH"(1) [OF c None] l by simp
        with c None mem show ?thesis
          by (simp add: match_placeholder_closed)
      next
        case (Some pr)
        obtain p rest where pr: "pr = (p, rest)" by (cases pr)
        from Some pr match_placeholder_Some [of cs p rest]
        have cs: "cs = p @ CHR ''}'' # rest" by simp
        with l have "rest = [] \<or> last rest = CHR ''}''"
          by (cases "rest = []") auto
        then have "replace_placeholders f (rest @ t) =
                   replace_placeholders f rest @ replace_placeholders f t"
          using "2.IH"(2) [OF c Some pr [symmetric]] by simp
        with c Some pr mem show ?thesis
          by (simp add: match_placeholder_closed)
      qed
    next
      case c: False
      have "replace_placeholders f (cs @ t) = replace_placeholders f cs @ replace_placeholders f t"
        using "2.IH"(3) [OF c] l by simp
      with c show ?thesis by simp
    qed
  qed
qed

lemma replace_placeholders_no_open:
  assumes "no_open_brace pre"
  shows "replace_placeholders f (pre @ t) = replace_placeholders f pre @ replace_placeholders f t"
proof -
  let ?P = "\<lambda>c. c \<noteq> CHR ''}''"
  define b where "b = rev (takeWhile ?P (rev pre))"
  define a where "a = rev (dropWhile ?P (rev pre))"
  have pre: "pre = a @ b"
    unfolding a_def b_def
    by (metis rev_append rev_rev_ident takeWhile_dropWhile_id)
  have b: "CHR ''{'' \<notin> set b"
    using assms by (simp add: b_def no_open_brace_def)
  have "dropWhile ?P (rev pre) = [] \<or> hd (dropWhile ?P (rev pre)) = CHR ''}''"
    using hd_dropWhile [of ?P "rev pre"] by auto
  then have a: "a = [] \<or> last a = CHR ''}''"
    unfolding a_def by (auto simp: last_rev)
  have rb: "replace_placeholders f b = b"
    using b replace_placeholders_plain [of b f "[]"] by simp
  have "replace_placeholders f (pre @ t) = replace_placeholders f (a @ (b @ t))"
    by (simp add: pre)
  also have "\<dots> = replace_placeholders f a @ replace_placeholders f (b @ t)"
    using a by (rule replace_placeholders_closed)
  also have "\<dots> = replace_placeholders f a @ b @ replace_placeholders f t"
    using b by (simp add: replace_placeholders_plain)
  also have "\<dots> = (replace_placeholders f a @ replace_placeholders f b) @ replace_placeholders f t"
    by (simp add: rb)
  also have "\<dots> = replace_placeholders f (a @ b) @ replace_placeholders f t"
    using a replace_placeholders_closed [of a f b] by simp
  finally show ?thesis by (simp add: pre)
qed

lemma buildFromTemplate_token:
  assumes "no_open_brace pre" and "X \<noteq> []" and "CHR ''}'' \<notin> set X"
  shows "buildFromTemplate (pre @ ''{'' @ X @ ''}'' @ rest) base overrides =
         buildFromTemplate pre base overrides
         @ (case get_property (base ++ overrides) X of Some v \<Rightarrow> v | None \<Rightarrow> ''N/A'')
         @ buildFromTemplate rest base overrides"
proof -
  let ?f = "\<lambda>placeholder.
              case get_property (base ++ overrides) placeholder of Some v \<Rightarrow> v | None \<Rightarrow> ''N/A''"
  have "replace_placeholders ?f (pre @ ''{'' @ X @ ''}'' @ rest) =
        replace_placeholders ?f pre @ replace_placeholders ?f (CHR ''{'' # X @ CHR ''}'' # rest)"
    using assms(1) replace_placeholders_no_open [of pre ?f "CHR ''{'' # X @ CHR ''}'' # rest"]
    by simp
  also have "replace_placeholders ?f (CHR ''{'' # X @ CHR ''}'' # rest) =
             ?f X @ replace_placeholders ?f rest"
    using assms(2,3) by (rule replace_placeholders_token)
  finally show ?thesis
    unfolding buildFromTemplate_def Let_def .
qed

lemma buildFromTemplate_tail:
  assumes "CHR ''}'' \<notin> set s"
  shows "buildFromTemplate (t @ s) base overrides = buildFromTemplate t base overrides @ s"
  unfolding buildFromTemplate_def Let_def using assms by (rule replace_placeholders_tail)

lemma buildFromTemplate_empty_braces:
  assumes "no_open_brace pre"
  shows "buildFromTemplate (pre @ ''{}'' @ rest) base overrides =
         buildFromTemplate pre base overrides @ ''{}'' @ buildFromTemplate rest base overrides"
proof -
  let ?f = "\<lambda>placeholder.
              case get_property (base ++ overrides) placeholder of Some v \<Rightarrow> v | None \<Rightarrow> ''N/A''"
  show ?thesis
    unfolding buildFromTemplate_def Let_def
    using assms replace_placeholders_no_open [of pre ?f "''{}'' @ rest"]
    by (simp add: match_placeholder_def)
qed

text \<open>
  The rule of the resolution. In a template \<open>pre {X} rest\<close>, where \<open>pre\<close> has no open
  brace and \<open>X\<close> is one or more characters other than the closing brace, the token is
  replaced by the value of \<open>X\<close> in the overrides if it is a key there, else by its value
  in the base mapping if it is a key there, else by the text of the member of that name
  inherited from \<^verbatim>\<open>Object.prototype\<close> if there is one, else by \<open>N/A\<close>. The value is
  copied as it is (it is not scanned for placeholders), and \<open>pre\<close> and \<open>rest\<close> are
  resolved on their own. Text behind the last closing brace of a template is copied
  unchanged: an opening brace that is never closed is not matched.
\<close>

lemma buildFromTemplate_rule:
  "(no_open_brace pre \<and> X \<noteq> [] \<and> CHR ''}'' \<notin> set X \<longrightarrow>
      buildFromTemplate (pre @ ''{'' @ X @ ''}'' @ rest) base overrides =
        buildFromTemplate pre base overrides
        @ (case overrides X of
             Some v \<Rightarrow> v
           | None \<Rightarrow>
               (case base X of
                  Some v \<Rightarrow> v
                | None \<Rightarrow> (case Object_prototype X of Some m \<Rightarrow> m | None \<Rightarrow> ''N/A'')))
        @ buildFromTemplate rest base overrides)
   \<and> (CHR ''}'' \<notin> set s \<longrightarrow>
        buildFromTemplate (t @ s) base overrides = buildFromTemplate t base overrides @ s)"
proof -
  have v: "(case get_property (base ++ overrides) X of Some v \<Rightarrow> v | None \<Rightarrow> ''N/A'') =
           (case overrides X of
              Some v \<Rightarrow> v
            | None \<Rightarrow>
                (case base X of
                   Some v \<Rightarrow> v
                 | None \<Rightarrow> (case Object_prototype X of Some m \<Rightarrow> m | None \<Rightarrow> ''N/A'')))"
    by (simp add: get_property_def map_add_def split: option.splits)
  show ?thesis
    using buildFromTemplate_token [of pre X rest base overrides]
      buildFromTemplate_tail [of s t base overrides]
    unfolding v by blast
qed

text \<open>
  An override wins over the base mapping, a value that looks like a placeholder is not
  resolved again, and the unterminated brace at the end stays.
\<close>

lemma buildFromTemplate_example:
  "buildFromTemplate ''{}{A} - {C}'' [''A'' \<mapsto> ''x'', ''C'' \<mapsto> ''{A}''] [''A'' \<mapsto> ''{C}'']
       = ''{}{C} - {A}''
   \<and> buildFromTemplate ''{A} {B'' [''A'' \<mapsto> ''x'', ''C'' \<mapsto> ''{A}''] [''A'' \<mapsto> ''{C}'']
       = ''{C} {B''
   \<and> buildFromTemplate ''{A} - {B}'' [''A'' \<mapsto> ''x''] Map.empty = ''x - N/A''"
  by code_simp

text \<open>
  C3. A well-formed token whose name is a key of neither mapping is not always replaced
  by \<open>N/A\<close>: \<^verbatim>\<open>allPlaceholders[placeholder]\<close> also finds the members that the object
  inherits, so that the tokens \<open>{constructor}\<close> and \<open>{toString}\<close> are replaced by
  the text of a function although no mapping has such a key. The claim, like the
  comment in \<^verbatim>\<open>buildFromTemplate\<close>, gives \<open>N/A\<close> and \<open>Ref: N/A\<close> on these inputs.
\<close>

theorem inherited_placeholder:
  "buildFromTemplate ''{constructor}'' Map.empty Map.empty =
     ''function Object() { [native code] }''
   \<and> buildFromTemplate ''Ref: {toString}'' [''Vendor'' \<mapsto> ''Acme''] Map.empty =
     ''Ref: function toString() { [native code] }''"
  by code_simp

text \<open>
  C9, as stated: a malformed token resolves to \<open>N/A\<close>. It does not: empty braces and
  an opening brace with no closing brace are not matched by the regular expression and
  stay in the output.
\<close>

theorem malformed_token_counterexample:
  "buildFromTemplate ''{}'' Map.empty Map.empty \<noteq> ''N/A''
   \<and> buildFromTemplate ''{Vendor'' Map.empty Map.empty \<noteq> ''N/A''"
  by (simp add: buildFromTemplate_def match_placeholder_def)

text \<open>
  C9, amended. A well-formed token whose name is a key of neither mapping, and is not
  the name of a member inherited from \<^verbatim>\<open>Object.prototype\<close>, resolves to \<open>N/A\<close>, which
  is not the empty string, and the resolution is a total function, so that no error is
  raised. A malformed token (empty braces, or an opening brace with no closing brace
  behind it) is no placeholder and stays in the output as it is written.
\<close>

theorem unmatched_token_sentinel:
  "(no_open_brace pre \<and> X \<noteq> [] \<and> CHR ''}'' \<notin> set X
    \<and> base X = None \<and> overrides X = None \<and> Object_prototype X = None \<longrightarrow>
      buildFromTemplate (pre @ ''{'' @ X @ ''}'' @ rest) base overrides =
        buildFromTemplate pre base overrides @ ''N/A'' @ buildFromTemplate rest base overrides)
   \<and> (no_open_brace pre \<longrightarrow>
        buildFromTemplate (pre @ ''{}'' @ rest) base overrides =
          buildFromTemplate pre base overrides @ ''{}'' @ buildFromTemplate rest base overrides)
   \<and> (CHR ''}'' \<notin> set s \<longrightarrow>
        buildFromTemplate (t @ ''{'' @ s) base overrides = buildFromTemplate t base overrides @ ''{'' @ s)"
proof -
  have v: "(case get_property (base ++ overrides) X of Some v \<Rightarrow> v | None \<Rightarrow> ''N/A'') = ''N/A''"
    if "base X = None" "overrides X = None" "Object_prototype X = None"
    using that by (simp add: get_property_def map_add_def)
  have tail: "buildFromTemplate (t @ ''{'' @ s) base overrides =
              buildFromTemplate t base overrides @ ''{'' @ s"
    if "CHR ''}'' \<notin> set s"
    using that buildFromTemplate_tail [of "''{'' @ s" t base overrides] by simp
  show ?thesis
    using buildFromTemplate_token [of pre X rest base overrides] v
      buildFromTemplate_empty_braces [of pre rest base overrides] tail
    by presburger
qed

theorem unmatched_token_sentinel_witness:
  "no_open_brace ''a}'' \<and> ''B'' \<noteq> [] \<and> CHR ''}'' \<notin> set ''B''
   \<and> [''A'' \<mapsto> ''x''] ''B'' = None \<and> (Map.empty :: string \<rightharpoonup> string) ''B'' = None
   \<and> Object_prototype ''B'' = None
   \<and> CHR ''}'' \<notin> set ''Vendor''
   \<and> buildFromTemplate ''a}{B} - {A}'' [''A'' \<mapsto> ''x''] Map.empty = ''a}N/A - x''
   \<and> buildFromTemplate ''a}{} - {A}'' [''A'' \<mapsto> ''x''] Map.empty = ''a}{} - x''
   \<and> buildFromTemplate ''{A} {Vendor'' [''A'' \<mapsto> ''x''] Map.empty = ''x {Vendor''"
proof -
  have p: "Object_prototype ''B'' = None" by (simp add: Object_prototype_def)
  have n: "no_open_brace ''a}''" by (simp add: no_open_brace_def)
  have a: "buildFromTemplate '' - {A}'' [''A'' \<mapsto> ''x''] Map.empty = '' - x''" by code_simp
  have b: "buildFromTemplate ''a}'' [''A'' \<mapsto> ''x''] Map.empty = ''a}''" by code_simp
  have c: "buildFromTemplate ''{A} '' [''A'' \<mapsto> ''x''] Map.empty = ''x ''" by code_simp
  show ?thesis
    using p n a b c
      unmatched_token_sentinel [of "''a}''" "''B''" "[''A'' \<mapsto> ''x'']" Map.empty "'' - {A}''"
          "''Vendor''" "''{A} ''"]
    by simp
qed

section \<open>Properties of the file names\<close>

lemma lastIndexFrom_found:
  "i \<le> k \<Longrightarrow> occurs_at pat s i \<Longrightarrow> (\<forall>j. i < j \<and> j \<le> k \<longrightarrow> \<not> occurs_at pat s j) \<Longrightarrow>
   lastIndexFrom s pat k = int i"
proof (induction k)
  case 0
  then show ?case by simp
next
  case (Suc k)
  show ?case
  proof (cases "i = Suc k")
    case True
    with Suc.prems show ?thesis by simp
  next
    case False
    with Suc.prems have "i \<le> k" by simp
    moreover have "\<not> occurs_at pat s (Suc k)"
      using Suc.prems False by auto
    ultimately show ?thesis
      using Suc.IH Suc.prems by simp
  qed
qed

lemma lastIndexFrom_absent:
  "(\<forall>j \<le> k. \<not> occurs_at pat s j) \<Longrightarrow> lastIndexFrom s pat k = - 1"
  by (induction k) auto

lemma occurs_at_append:
  "occurs_at pat (p @ pat @ s) (length p)"
  by (simp add: occurs_at_def)

lemma occurs_at_shift:
  "occurs_at pat (p @ s) (length p + j) = occurs_at pat s j"
  by (simp add: occurs_at_def)

lemma occurs_in_iff:
  "occurs_in pat s \<longleftrightarrow> (\<exists>j \<le> length s. occurs_at pat s j)"
proof -
  have "set [0..<Suc (length s)] = {j. j \<le> length s}" by auto
  then show ?thesis
    unfolding occurs_in_def list_ex_iff by blast
qed

lemma lastIndexOf_last:
  assumes "\<not> occurs_in pat (tl (pat @ s))" and "pat \<noteq> []"
  shows "lastIndexOf (p @ pat @ s) pat = int (length p)"
  unfolding lastIndexOf_def
proof (rule lastIndexFrom_found)
  show "length p \<le> length (p @ pat @ s)" by simp
  show "occurs_at pat (p @ pat @ s) (length p)" by (rule occurs_at_append)
  show "\<forall>j. length p < j \<and> j \<le> length (p @ pat @ s) \<longrightarrow> \<not> occurs_at pat (p @ pat @ s) j"
  proof (intro allI impI)
    fix j assume j: "length p < j \<and> j \<le> length (p @ pat @ s)"
    define j' where "j' = j - Suc (length p)"
    obtain c cs where pat: "pat = c # cs" using assms(2) by (cases pat) auto
    have jj: "j = length (p @ [c]) + j'" using j by (simp add: j'_def)
    have "occurs_at pat (p @ pat @ s) j = occurs_at pat ((p @ [c]) @ (cs @ s)) (length (p @ [c]) + j')"
      using jj pat by simp
    also have "\<dots> = occurs_at pat (cs @ s) j'"
      by (rule occurs_at_shift)
    finally have eq: "occurs_at pat (p @ pat @ s) j = occurs_at pat (tl (pat @ s)) j'"
      using pat by simp
    have "j' \<le> length (tl (pat @ s))" using j pat unfolding j'_def by auto
    with assms(1) have "\<not> occurs_at pat (tl (pat @ s)) j'"
      by (auto simp: occurs_in_iff)
    with eq show "\<not> occurs_at pat (p @ pat @ s) j" by simp
  qed
qed

lemma lastIndexOf_absent:
  "\<not> occurs_in pat s \<Longrightarrow> lastIndexOf s pat = - 1"
  unfolding lastIndexOf_def by (rule lastIndexFrom_absent) (auto simp: occurs_in_iff)

lemma occurs_in_char:
  "occurs_in [c] s \<longleftrightarrow> c \<in> set s"
proof
  assume "occurs_in [c] s"
  then obtain j where j: "j \<le> length s" "take (Suc 0) (drop j s) = [c]"
    by (auto simp: occurs_in_iff occurs_at_def)
  then have "c \<in> set (take (Suc 0) (drop j s))" by simp
  then show "c \<in> set s"
    by (meson in_set_dropD in_set_takeD)
next
  assume "c \<in> set s"
  then obtain p q where "s = p @ c # q" by (meson split_list)
  then have "occurs_at [c] s (length p)" by (simp add: occurs_at_def)
  moreover have "length p \<le> length s" using \<open>s = p @ c # q\<close> by simp
  ultimately show "occurs_in [c] s" by (auto simp: occurs_in_iff)
qed

lemma extension_of_dot:
  assumes "CHR ''.'' \<notin> set e"
  shows "extension_of (b @ ''.'' @ e) = ''.'' @ e"
proof -
  have "\<not> occurs_in ''.'' (tl (''.'' @ e))"
    using assms by (simp add: occurs_in_char)
  then have "lastIndexOf (b @ ''.'' @ e) ''.'' = int (length b)"
    by (rule lastIndexOf_last) simp
  then show ?thesis
    by (simp add: extension_of_def js_slice_def Let_def)
qed

lemma extension_of_no_dot:
  assumes "CHR ''.'' \<notin> set name"
  shows "extension_of name = (if name = [] then [] else [last name])"
proof -
  have "lastIndexOf name ''.'' = - 1"
    using assms by (intro lastIndexOf_absent) (simp add: occurs_in_char)
  then show ?thesis
    by (cases name rule: rev_cases) (auto simp: extension_of_def js_slice_def Let_def)
qed

lemma originalBaseName_of_separator:
  assumes "\<not> occurs_in '' - '' (''- '' @ s)"
  shows "originalBaseName_of (p @ '' - '' @ s) = p"
proof -
  have "lastIndexOf (p @ '' - '' @ s) '' - '' = int (length p)"
    using assms by (intro lastIndexOf_last) simp_all
  then show ?thesis
    by (simp add: originalBaseName_of_def js_substring_def Let_def)
qed

lemma originalBaseName_of_fallback:
  assumes "\<not> occurs_in '' - '' (b @ ''.'' @ e)" and "CHR ''.'' \<notin> set e"
  shows "originalBaseName_of (b @ ''.'' @ e) = b"
proof -
  have 1: "lastIndexOf (b @ ''.'' @ e) '' - '' = - 1"
    using assms(1) by (rule lastIndexOf_absent)
  have "\<not> occurs_in ''.'' (tl (''.'' @ e))"
    using assms(2) by (simp add: occurs_in_char)
  then have 2: "lastIndexOf (b @ ''.'' @ e) ''.'' = int (length b)"
    by (rule lastIndexOf_last) simp
  show ?thesis
    unfolding originalBaseName_of_def Let_def 1 2 by (simp add: js_substring_def)
qed

lemma newFileName_special:
  "questionTitle = SPECIAL_NAMING_QUESTION_TITLE cfg \<Longrightarrow>
   newFileName cfg questionTitle responseMap n index originalName =
     sanitize (buildFromTemplate (FILE_NAME_PREFIX_TEMPLATE cfg) responseMap Map.empty)
     @ '' - '' @ originalBaseName_of originalName @ extension_of originalName"
  by (simp add: newFileName_def Let_def)

lemma newFileName_standard:
  "questionTitle \<noteq> SPECIAL_NAMING_QUESTION_TITLE cfg \<Longrightarrow>
   newFileName cfg questionTitle responseMap n index originalName =
     sanitize (buildFromTemplate (FILE_NAME_TEMPLATE cfg) responseMap [''QuestionTitle'' \<mapsto> questionTitle])
     @ (if n > 1 then '' ('' @ string_of_nat (index + 1) @ '')'' else [])
     @ extension_of originalName"
  by (simp add: newFileName_def Let_def)

lemma sanitize_idem: "sanitize (sanitize s) = sanitize s"
  by (induction s) (auto simp: sanitize_def illegal_char_def)

lemma sanitize_legal: "c \<in> set (sanitize s) \<Longrightarrow> \<not> illegal_char c"
  by (auto simp: sanitize_def illegal_char_def)

lemma digit_char_legal: "d < 10 \<Longrightarrow> \<not> illegal_char (digit_char d)"
proof -
  assume "d < 10"
  then have "d \<in> {0, 1, 2, 3, 4, 5, 6, 7, 8, 9}" by auto
  then show ?thesis
    by (elim insertE emptyE) (simp_all add: digit_char_def illegal_char_def)
qed

lemma string_of_nat_legal: "c \<in> set (string_of_nat n) \<Longrightarrow> \<not> illegal_char c"
proof (induction n rule: string_of_nat.induct)
  case (1 n)
  show ?case
  proof (cases "n < 10")
    case True
    with "1.prems" show ?thesis
      by (simp add: string_of_nat.simps [of n] digit_char_legal)
  next
    case False
    with "1.prems" have "c \<in> set (string_of_nat (n div 10)) \<or> c = digit_char (n mod 10)"
      by (auto simp: string_of_nat.simps [of n])
    with False "1.IH" show ?thesis
      by (auto simp: digit_char_legal)
  qed
qed

lemma extension_of_subset: "set (extension_of name) \<subseteq> set name"
  by (simp add: extension_of_def js_slice_def Let_def set_drop_subset)

lemma originalBaseName_of_subset: "set (originalBaseName_of name) \<subseteq> set name"
proof -
  have "set (js_substring name a b) \<subseteq> set name" for a b
    unfolding js_substring_def Let_def
    by (meson set_take_subset set_drop_subset subset_trans)
  then show ?thesis
    by (simp add: originalBaseName_of_def Let_def)
qed

text \<open>
  C1. A file name without a dot: \<^verbatim>\<open>lastIndexOf\<close> answers \<open>-1\<close>, and \<^verbatim>\<open>slice(-1)\<close>
  is the last character of the name. The extension is that character, not the empty
  string; in the special branch the stripped base is empty at the same time.
\<close>

theorem extension_without_dot:
  "extension_of ''README'' = ''E''
   \<and> newFileName CONFIG ''Upload Quote'' Map.empty 1 0 ''README'' = ''N-A - N-A - N-A - Upload QuoteE''
   \<and> newFileName CONFIG ''Supporting Docs (SDS, Justification, etc)'' Map.empty 1 0 ''README''
       = ''N-A - N-A - N-A - E''"
  by code_simp

text \<open>
  The rule of the special branch. The new name is the sanitized prefix, the separator,
  the stripped base and the extension. The stripped base of \<open>p - s\<close> is \<open>p\<close> when the
  separator does not occur again behind that place (it is the last occurrence); the
  stripped base of \<open>b.e\<close>, when the separator occurs nowhere and \<open>e\<close> has no dot, is
  \<open>b\<close>; the stripped base of a name with neither the separator nor a dot is empty.
\<close>

lemma stripped_base_rule:
  "(questionTitle = SPECIAL_NAMING_QUESTION_TITLE cfg \<longrightarrow>
      newFileName cfg questionTitle responseMap n index originalName =
        sanitize (buildFromTemplate (FILE_NAME_PREFIX_TEMPLATE cfg) responseMap Map.empty)
        @ '' - '' @ originalBaseName_of originalName @ extension_of originalName)
   \<and> (\<not> occurs_in '' - '' (''- '' @ s) \<longrightarrow> originalBaseName_of (p @ '' - '' @ s) = p)
   \<and> (\<not> occurs_in '' - '' (b @ ''.'' @ e) \<and> CHR ''.'' \<notin> set e \<longrightarrow>
        originalBaseName_of (b @ ''.'' @ e) = b)
   \<and> (\<not> occurs_in '' - '' name \<and> CHR ''.'' \<notin> set name \<longrightarrow> originalBaseName_of name = [])"
proof -
  have bare: "originalBaseName_of name = []"
    if "\<not> occurs_in '' - '' name" "CHR ''.'' \<notin> set name"
  proof -
    have 1: "lastIndexOf name '' - '' = - 1"
      using that(1) by (rule lastIndexOf_absent)
    have 2: "lastIndexOf name ''.'' = - 1"
      using that(2) by (intro lastIndexOf_absent) (simp add: occurs_in_char)
    show ?thesis
      unfolding originalBaseName_of_def Let_def 1 2 by (simp add: js_substring_def)
  qed
  show ?thesis
    using newFileName_special [of questionTitle cfg responseMap n index originalName]
      originalBaseName_of_separator [of s p] originalBaseName_of_fallback [of b e] bare
    by blast
qed

text \<open>
  C5. The two names of the specification both give \<open>Report\<close>. For a name with
  neither the separator nor a dot the fallback does not strip the extension only:
  \<^verbatim>\<open>lastIndexOf('.')\<close> answers \<open>-1\<close>, and \<^verbatim>\<open>substring(0, -1)\<close> is the empty string,
  so that the stripped base of \<open>README\<close> is empty and the whole name is lost but for its
  last character, which the extension takes.
\<close>

theorem stripped_base_without_dot:
  "originalBaseName_of ''Report - Jane Doe.pdf'' = ''Report''
   \<and> originalBaseName_of ''Report.pdf'' = ''Report''
   \<and> originalBaseName_of ''README'' = []
   \<and> newFileName CONFIG ''Supporting Docs (SDS, Justification, etc)'' [''Vendor'' \<mapsto> ''Acme''] 1 0
        ''README'' = ''N-A - Acme - N-A - E''"
  by code_simp

text \<open>
  C4, as stated: none of the nine characters remains in a generated name. The stripped
  base (special branch) and the extension (both branches) are copied from the original
  file name without sanitization, so a colon in the original name stays.
\<close>

theorem unsanitized_original_counterexample:
  "illegal_char (CHR '':'')
   \<and> CHR '':'' \<in> set (newFileName CONFIG ''Supporting Docs (SDS, Justification, etc)'' Map.empty 1 0
                        ''a:b - Jane Doe.pdf'')
   \<and> CHR '':'' \<in> set (newFileName CONFIG ''Upload Quote'' Map.empty 1 0 ''quote.v1:2'')"
  by code_simp

text \<open>
  C4, amended. Sanitization is idempotent and its result has none of the nine
  characters; a generated name of either branch has none of them when the original
  file name has none.
\<close>

theorem sanitize_idempotent:
  "sanitize (sanitize s) = sanitize s
   \<and> (\<forall>c \<in> set (sanitize s). \<not> illegal_char c)
   \<and> ((\<forall>c \<in> set originalName. \<not> illegal_char c) \<longrightarrow>
        (\<forall>c \<in> set (newFileName cfg questionTitle responseMap n index originalName). \<not> illegal_char c))"
proof -
  have base: "\<forall>c \<in> set (originalBaseName_of originalName). \<not> illegal_char c"
    and ext: "\<forall>c \<in> set (extension_of originalName). \<not> illegal_char c"
    if "\<forall>c \<in> set originalName. \<not> illegal_char c"
    using that originalBaseName_of_subset [of originalName] extension_of_subset [of originalName]
    by auto
  have lit: "\<not> illegal_char (CHR '' '')" "\<not> illegal_char (CHR ''-'')"
    "\<not> illegal_char (CHR ''('')" "\<not> illegal_char (CHR '')'')"
    by (simp_all add: illegal_char_def)
  have "\<forall>c \<in> set (newFileName cfg questionTitle responseMap n index originalName). \<not> illegal_char c"
    if h: "\<forall>c \<in> set originalName. \<not> illegal_char c"
  proof (cases "questionTitle = SPECIAL_NAMING_QUESTION_TITLE cfg")
    case True
    show ?thesis
      unfolding newFileName_special [OF True]
      using base [OF h] ext [OF h] lit by (auto dest: sanitize_legal)
  next
    case False
    show ?thesis
      unfolding newFileName_standard [OF False]
      using ext [OF h] lit by (auto dest: sanitize_legal string_of_nat_legal)
  qed
  then show ?thesis
    using sanitize_idem [of s] sanitize_legal [of _ s] by blast
qed

theorem sanitize_idempotent_witness:
  "list_all (\<lambda>c. \<not> illegal_char c) ''quote.PDF''
   \<and> newFileName CONFIG ''Upload Quote'' [''Vendor'' \<mapsto> ''Ac/me''] 3 1 ''quote.PDF''
       = ''N-A - Ac-me - N-A - Upload Quote (2).PDF''
   \<and> sanitize (sanitize ''a/b:c'') = sanitize ''a/b:c''
   \<and> list_all (\<lambda>c. \<not> illegal_char c) (sanitize ''a/b:c'')
   \<and> list_all (\<lambda>c. \<not> illegal_char c)
        (newFileName CONFIG ''Upload Quote'' [''Vendor'' \<mapsto> ''Ac/me''] 3 1 ''quote.PDF'')"
proof -
  have h: "\<forall>c \<in> set ''quote.PDF''. \<not> illegal_char c"
    by (simp add: illegal_char_def)
  have v: "newFileName CONFIG ''Upload Quote'' [''Vendor'' \<mapsto> ''Ac/me''] 3 1 ''quote.PDF''
       = ''N-A - Ac-me - N-A - Upload Quote (2).PDF''"
    by code_simp
  show ?thesis
    using h v sanitize_idempotent [where s = "''a/b:c''" and originalName = "''quote.PDF''"
        and cfg = CONFIG and questionTitle = "''Upload Quote''"
        and responseMap = "[''Vendor'' \<mapsto> ''Ac/me'']" and n = 3 and index = 1]
    unfolding list_all_iff by blast
qed

section \<open>Properties of the folder name\<close>

lemma folder_parts_eq:
  "filter (\<lambda>part. part \<noteq> [])
     (map folder_part
        (filter (\<lambda>r. itype r \<noteq> FILE_UPLOAD \<and> title r \<notin> set excl) items)) =
   [p. r \<leftarrow> items, itype r \<noteq> FILE_UPLOAD, title r \<notin> set excl,
       p \<leftarrow> [case response r of Null \<Rightarrow> [] | Str s \<Rightarrow> js_trim s | Arr xs \<Rightarrow> join '', '' xs],
       p \<noteq> []]"
  by (induction items)
     (auto simp: folder_part_def or_empty_def js_trim_def split: answer.splits)

lemma folder_parts_claimed:
  "(\<forall>r \<in> set items. \<forall>xs. response r = Arr xs \<longrightarrow> itype r = FILE_UPLOAD \<or> title r \<in> set excl) \<Longrightarrow>
   [p. r \<leftarrow> items, itype r \<noteq> FILE_UPLOAD, title r \<notin> set excl,
       p \<leftarrow> [case response r of Null \<Rightarrow> [] | Str s \<Rightarrow> js_trim s | Arr xs \<Rightarrow> join '', '' xs],
       p \<noteq> []] =
   [p. r \<leftarrow> items, itype r \<noteq> FILE_UPLOAD, title r \<notin> set excl,
       p \<leftarrow> [flat_trimmed r], p \<noteq> []]"
  by (induction items) (auto simp: flat_trimmed_def js_trim_def split: answer.splits)

text \<open>
  The parts of the folder name: the remaining responses are those of items that are no
  file upload and whose title is not excluded; a string answer gives its trimmed text, a
  missing answer the empty text, a list answer its elements joined (and not trimmed);
  empty parts are dropped. Where no remaining answer is a list, the name is the one the
  specification words.
\<close>

lemma buildFolderName_parts:
  "buildFolderName cfg itemResponses timestamp =
     timestamp @ ''_PENDING_'' @
     join ''_''
       [p. r \<leftarrow> itemResponses, itype r \<noteq> FILE_UPLOAD,
           title r \<notin> set (EXCLUDE_FROM_FOLDER_NAME cfg),
           p \<leftarrow> [case response r of
                     Null \<Rightarrow> []
                   | Str s \<Rightarrow> js_trim s
                   | Arr xs \<Rightarrow> join '', '' xs],
           p \<noteq> []]
   \<and> ((\<forall>r \<in> set itemResponses. \<forall>xs. response r = Arr xs \<longrightarrow>
          itype r = FILE_UPLOAD \<or> title r \<in> set (EXCLUDE_FROM_FOLDER_NAME cfg)) \<longrightarrow>
        buildFolderName cfg itemResponses timestamp =
          folder_name_claimed cfg itemResponses timestamp)"
  unfolding buildFolderName_def Let_def folder_name_claimed_def folder_parts_eq
  using folder_parts_claimed [of itemResponses "EXCLUDE_FROM_FOLDER_NAME cfg"]
  by simp

text \<open>The example of the specification: three remaining parts, the second one empty.\<close>

lemma buildFolderName_example:
  "buildFolderName CONFIG example_answers ''20250101-0800'' = ''20250101-0800_PENDING_Acme_Widgets''"
  by code_simp

text \<open>
  C7. A list answer is joined and not trimmed, because \<^verbatim>\<open>trim\<close> is applied in the other
  branch of the conditional only. A checkbox answer whose one element is a blank gives
  the part \<open>' '\<close>, which is not empty and is not dropped; a checkbox answer with a blank
  before its first or behind its last element keeps that blank. On both inputs the name
  the script builds differs from the name that trimming every flattened answer gives.
\<close>

theorem list_answer_not_trimmed:
  "buildFolderName CONFIG
     [\<lparr>title = ''Vendor'', itype = TEXT, response = Str ''Acme''\<rparr>,
      \<lparr>title = ''Other'', itype = CHECKBOX, response = Arr ['' '']\<rparr>] ''20250101-0800''
     = ''20250101-0800_PENDING_Acme_ ''
   \<and> folder_name_claimed CONFIG
     [\<lparr>title = ''Vendor'', itype = TEXT, response = Str ''Acme''\<rparr>,
      \<lparr>title = ''Other'', itype = CHECKBOX, response = Arr ['' '']\<rparr>] ''20250101-0800''
     = ''20250101-0800_PENDING_Acme''
   \<and> buildFolderName CONFIG
     [\<lparr>title = ''Vendor'', itype = TEXT, response = Str ''Acme''\<rparr>,
      \<lparr>title = ''Handling'', itype = CHECKBOX, response = Arr ['' rush'', ''fragile '']\<rparr>]
     ''20250101-0800''
     = ''20250101-0800_PENDING_Acme_ rush, fragile ''
   \<and> folder_name_claimed CONFIG
     [\<lparr>title = ''Vendor'', itype = TEXT, response = Str ''Acme''\<rparr>,
      \<lparr>title = ''Handling'', itype = CHECKBOX, response = Arr ['' rush'', ''fragile '']\<rparr>]
     ''20250101-0800''
     = ''20250101-0800_PENDING_Acme_rush, fragile''"
  by code_simp

section \<open>Properties of the notification email\<close>

lemma foldl_body:
  "foldl (\<lambda>emailBody itemResponse. if inc itemResponse then emailBody @ frag itemResponse else emailBody)
     acc items = acc @ concat (map frag (filter inc items))"
  by (induction items arbitrary: acc) auto

lemma escapeHtml_fallback:
  "escapeHtml ''<em>No response provided</em>'' = ''&lt;em&gt;No response provided&lt;/em&gt;''"
  by code_simp

text \<open>
  C10. An item that is no file upload, whose title is not excluded from the email body
  and whose answer is missing contributes its fragment to the body, and the answer shown
  in that fragment is the fallback text after HTML escaping:
  \<open>&lt;em&gt;No response provided&lt;/em&gt;\<close>.
\<close>

theorem no_response_escaped:
  "itemResponse \<in> set itemResponses \<and> itype itemResponse \<noteq> FILE_UPLOAD
   \<and> title itemResponse \<notin> set (EXCLUDE_FROM_EMAIL_BODY cfg) \<and> response itemResponse = Null \<longrightarrow>
   (\<exists>pre post. emailBody_of cfg itemResponses =
      pre @ ''<strong>'' @ escapeHtml (title itemResponse)
          @ '':</strong> &lt;em&gt;No response provided&lt;/em&gt;<br/><br/>'' @ post)"
proof (intro impI)
  let ?inc = "\<lambda>r. itype r \<noteq> FILE_UPLOAD \<and> title r \<notin> set (EXCLUDE_FROM_EMAIL_BODY cfg)"
  assume h: "itemResponse \<in> set itemResponses \<and> itype itemResponse \<noteq> FILE_UPLOAD
   \<and> title itemResponse \<notin> set (EXCLUDE_FROM_EMAIL_BODY cfg) \<and> response itemResponse = Null"
  then have "itemResponse \<in> set (filter ?inc itemResponses)"
    by simp
  then obtain us vs where "filter ?inc itemResponses = us @ itemResponse # vs"
    by (meson split_list)
  then have "emailBody_of cfg itemResponses =
             concat (map body_fragment us) @ body_fragment itemResponse @ concat (map body_fragment vs)"
    unfolding emailBody_of_def foldl_body by simp
  moreover have "body_fragment itemResponse =
      ''<strong>'' @ escapeHtml (title itemResponse)
      @ '':</strong> &lt;em&gt;No response provided&lt;/em&gt;<br/><br/>''"
    using h by (simp add: body_fragment_def Let_def escapeHtml_fallback)
  ultimately show "\<exists>pre post. emailBody_of cfg itemResponses =
      pre @ ''<strong>'' @ escapeHtml (title itemResponse)
          @ '':</strong> &lt;em&gt;No response provided&lt;/em&gt;<br/><br/>'' @ post"
    by (metis append.assoc)
qed

theorem no_response_escaped_witness:
  "\<lparr>title = ''Notes'', itype = PARAGRAPH_TEXT, response = Null\<rparr> \<in> set example_answers
   \<and> ''Notes'' \<notin> set (EXCLUDE_FROM_EMAIL_BODY CONFIG)
   \<and> emailBody_of CONFIG example_answers =
       ''<strong>Vendor:</strong>   Acme <br/><br/><strong>First Name:</strong> Jane<br/><br/><strong>Notes:</strong> &lt;em&gt;No response provided&lt;/em&gt;<br/><br/><strong>Keyword:</strong> Widgets<br/><br/>''
   \<and> (\<exists>pre post. emailBody_of CONFIG example_answers =
         pre @ ''<strong>'' @ escapeHtml ''Notes''
             @ '':</strong> &lt;em&gt;No response provided&lt;/em&gt;<br/><br/>'' @ post)"
proof -
  have m: "\<lparr>title = ''Notes'', itype = PARAGRAPH_TEXT, response = Null\<rparr> \<in> set example_answers"
    by (simp add: example_answers_def)
  have x: "''Notes'' \<notin> set (EXCLUDE_FROM_EMAIL_BODY CONFIG)"
    by (simp add: CONFIG_def)
  have v: "emailBody_of CONFIG example_answers =
       ''<strong>Vendor:</strong>   Acme <br/><br/><strong>First Name:</strong> Jane<br/><br/><strong>Notes:</strong> &lt;em&gt;No response provided&lt;/em&gt;<br/><br/><strong>Keyword:</strong> Widgets<br/><br/>''"
    by code_simp
  show ?thesis
    using m x v no_response_escaped [where cfg = CONFIG and itemResponses = example_answers
        and itemResponse = "\<lparr>title = ''Notes'', itype = PARAGRAPH_TEXT, response = Null\<rparr>"]
    by simp
qed

section \<open>Properties of the file router\<close>

lemma process_file_routed:
  "process_file cfg t rm d n p w =
     (Inr (), w\<lparr>files := (files w)(snd p := fst (routed cfg t rm d n p (files w (snd p)))),
               calls := calls w @ snd (routed cfg t rm d n p (files w (snd p)))\<rparr>)"
  by (cases p)
     (auto simp: process_file_def route_file_def getFileById_def setName_def moveTo_def
        Logger_log_def called_def routed_def Let_def fun_upd_idem
      split: option.splits)

lemma forEach_process_file:
  "distinct (map snd ps) \<Longrightarrow>
   fst (forEach (process_file cfg t rm d n) ps w) = Inr ()
   \<and> calls (snd (forEach (process_file cfg t rm d n) ps w)) =
       calls w @ concat (map (\<lambda>p. snd (routed cfg t rm d n p (files w (snd p)))) ps)
   \<and> (\<forall>p \<in> set ps. files (snd (forEach (process_file cfg t rm d n) ps w)) (snd p) =
         fst (routed cfg t rm d n p (files w (snd p))))
   \<and> (\<forall>fid. fid \<notin> snd ` set ps \<longrightarrow>
         files (snd (forEach (process_file cfg t rm d n) ps w)) fid = files w fid)"
proof (induction ps arbitrary: w)
  case Nil
  then show ?case by simp
next
  case (Cons p ps)
  let ?f = "process_file cfg t rm d n"
  let ?R = "\<lambda>q fo. routed cfg t rm d n q fo"
  define w1 where "w1 = snd (?f p w)"
  have step: "forEach ?f (p # ps) w = forEach ?f ps w1"
    by (simp add: w1_def process_file_routed)
  have calls1: "calls w1 = calls w @ snd (?R p (files w (snd p)))"
    by (simp add: w1_def process_file_routed)
  have files_p: "files w1 (snd p) = fst (?R p (files w (snd p)))"
    by (simp add: w1_def process_file_routed)
  have files_other: "files w1 fid = files w fid" if "fid \<noteq> snd p" for fid
    using that by (simp add: w1_def process_file_routed)
  from Cons.prems have d: "distinct (map snd ps)" and notin: "snd p \<notin> snd ` set ps"
    by auto
  have other: "snd q \<noteq> snd p" if "q \<in> set ps" for q
  proof -
    have "snd q \<in> snd ` set ps" using that by (rule imageI)
    with notin show ?thesis by metis
  qed
  have m: "map (\<lambda>q. snd (?R q (files w1 (snd q)))) ps =
           map (\<lambda>q. snd (?R q (files w (snd q)))) ps"
    by (rule map_cong) (simp_all add: files_other other)
  note IH = Cons.IH [OF d, of w1]
  have 1: "fst (forEach ?f (p # ps) w) = Inr ()"
    unfolding step using IH by blast
  have 2: "calls (snd (forEach ?f (p # ps) w)) =
           calls w @ concat (map (\<lambda>q. snd (?R q (files w (snd q)))) (p # ps))"
    unfolding step using IH calls1 m by simp
  have 3: "files (snd (forEach ?f (p # ps) w)) (snd q) = fst (?R q (files w (snd q)))"
    if "q \<in> set (p # ps)" for q
  proof (cases "q \<in> set ps")
    case True
    then have "files (snd (forEach ?f ps w1)) (snd q) = fst (?R q (files w1 (snd q)))"
      using IH by blast
    then show ?thesis
      unfolding step using files_other [OF other [OF True]] by simp
  next
    case False
    with that have q: "q = p" by simp
    have "files (snd (forEach ?f ps w1)) (snd p) = files w1 (snd p)"
      using IH notin by blast
    then show ?thesis
      unfolding step q using files_p by simp
  qed
  have 4: "files (snd (forEach ?f (p # ps) w)) fid = files w fid"
    if "fid \<notin> snd ` set (p # ps)" for fid
  proof -
    from that have a: "fid \<notin> snd ` set ps" and b: "fid \<noteq> snd p" by auto
    have "files (snd (forEach ?f ps w1)) fid = files w1 fid"
      using IH a by blast
    then show ?thesis
      unfolding step using files_other [OF b] by simp
  qed
  show ?case
    using 1 2 3 4 by blast
qed

lemma process_question_upload:
  "process_question cfg rm d (upload_of t fileIds) w =
   forEach (process_file cfg t rm d (length fileIds)) (enumerate 0 fileIds) w"
  by (cases fileIds) (simp_all add: process_question_def upload_of_def Let_def)

lemma new_calls_process_file:
  "new_calls w (snd (process_file cfg t rm d n p w)) = snd (routed cfg t rm d n p (files w (snd p)))"
  by (simp add: new_calls_def process_file_routed)

lemma files_process_file:
  "files (snd (process_file cfg t rm d n p w)) (snd p) = fst (routed cfg t rm d n p (files w (snd p)))"
  by (simp add: process_file_routed)

lemma forEach_completes:
  "(\<forall>x \<in> set xs. \<forall>w. fst (f x w) = Inr ()) \<Longrightarrow> fst (forEach f xs w) = Inr ()"
proof (induction xs arbitrary: w)
  case Nil
  then show ?case by simp
next
  case (Cons x xs)
  then have "fst (f x w) = Inr ()" by simp
  then obtain w1 where "f x w = (Inr (), w1)" by (cases "f x w") auto
  with Cons show ?case by simp
qed

lemma process_file_completes: "fst (process_file cfg t rm d n p w) = Inr ()"
  by (simp add: process_file_routed)

lemma process_question_completes:
  assumes "\<forall>s. response r = Str s \<longrightarrow> s = []"
  shows "fst (process_question cfg rm d r w) = Inr ()"
proof (cases "response r")
  case Null
  then show ?thesis by (simp add: process_question_def Let_def)
next
  case (Str s)
  with assms show ?thesis by (simp add: process_question_def Let_def)
next
  case (Arr fileIds)
  have "fst (forEach (process_file cfg (title r) rm d (length fileIds)) (enumerate 0 fileIds) w) = Inr ()"
    by (rule forEach_completes) (simp add: process_file_completes)
  with Arr show ?thesis by (simp add: process_question_def Let_def)
qed

text \<open>
  C2. An exception of the \<^verbatim>\<open>try\<close> block is caught by the callback, which logs the
  failure and returns normally. The loop over the files of a question therefore always
  runs to its end. When the file ids are distinct, the calls made by the loop are the
  calls that each file makes when it is processed alone from the initial state, in
  upload order, and each file ends as it does when it is processed alone: a failure of
  one file changes nothing for the others. The loop over all questions returns normally
  as well (the response of a file upload question being an array or missing).
\<close>

theorem per_file_isolation:
  "(fst (route_file cfg t rm d n p w') = Inl e \<longrightarrow>
      process_file cfg t rm d n p w' =
        (Inr (), Logger_log (LogFailed (snd p) e) (snd (route_file cfg t rm d n p w'))))
   \<and> fst (process_question cfg rm d (upload_of t fileIds) w) = Inr ()
   \<and> (distinct fileIds \<longrightarrow>
        new_calls w (snd (process_question cfg rm d (upload_of t fileIds) w)) =
          concat (map (\<lambda>q. new_calls w (snd (process_file cfg t rm d (length fileIds) q w)))
                    (enumerate 0 fileIds))
        \<and> (\<forall>k < length fileIds.
             files (snd (process_question cfg rm d (upload_of t fileIds) w)) (fileIds ! k) =
             files (snd (process_file cfg t rm d (length fileIds) (k, fileIds ! k) w)) (fileIds ! k)))
   \<and> ((\<forall>r \<in> set itemResponses. \<forall>s. itype r = FILE_UPLOAD \<and> response r = Str s \<longrightarrow> s = []) \<longrightarrow>
        fst (processAndRenameFiles cfg itemResponses d rm w) = Inr ())"
proof -
  let ?f = "process_file cfg t rm d (length fileIds)"
  let ?ps = "enumerate 0 fileIds"
  have caught: "process_file cfg t rm d n p w' =
        (Inr (), Logger_log (LogFailed (snd p) e) (snd (route_file cfg t rm d n p w')))"
    if "fst (route_file cfg t rm d n p w') = Inl e"
    using that by (cases "route_file cfg t rm d n p w'") (simp add: process_file_def)
  have completes: "fst (process_question cfg rm d (upload_of t fileIds) w) = Inr ()"
    by (rule process_question_completes) (simp add: upload_of_def)
  have isolated: "new_calls w (snd (forEach ?f ?ps w)) =
          concat (map (\<lambda>q. new_calls w (snd (?f q w))) ?ps)
        \<and> (\<forall>k < length fileIds.
             files (snd (forEach ?f ?ps w)) (fileIds ! k) =
             files (snd (?f (k, fileIds ! k) w)) (fileIds ! k))"
    if dist: "distinct fileIds"
  proof -
    have d: "distinct (map snd ?ps)" using dist by simp
    note L = forEach_process_file [OF d, of cfg t rm d "length fileIds" w]
    have a: "new_calls w (snd (forEach ?f ?ps w)) =
             concat (map (\<lambda>q. new_calls w (snd (?f q w))) ?ps)"
      using L by (simp add: new_calls_def [of w "snd (forEach ?f ?ps w)"] new_calls_process_file)
    have b: "files (snd (forEach ?f ?ps w)) (fileIds ! k) =
             files (snd (?f (k, fileIds ! k) w)) (fileIds ! k)" if "k < length fileIds" for k
    proof -
      have "(k, fileIds ! k) \<in> set ?ps"
        using that by (simp add: in_set_enumerate_eq)
      with L have "files (snd (forEach ?f ?ps w)) (snd (k, fileIds ! k)) =
                   fst (routed cfg t rm d (length fileIds) (k, fileIds ! k) (files w (snd (k, fileIds ! k))))"
        by blast
      then show ?thesis
        using files_process_file [of cfg t rm d "length fileIds" "(k, fileIds ! k)" w] by simp
    qed
    show ?thesis using a b by blast
  qed
  have whole: "fst (processAndRenameFiles cfg itemResponses d rm w) = Inr ()"
    if "\<forall>r \<in> set itemResponses. \<forall>s. itype r = FILE_UPLOAD \<and> response r = Str s \<longrightarrow> s = []"
    unfolding processAndRenameFiles_def
    by (rule forEach_completes) (use that in \<open>auto intro!: process_question_completes\<close>)
  show ?thesis
    using caught completes isolated whole
    unfolding process_question_upload by blast
qed

theorem per_file_isolation_witness:
  "distinct [''id1'', ''id2'', ''id3'']
   \<and> fst (route_file CONFIG ''Upload Quote'' Map.empty 1 3 (1, ''id2'') example_world)
       = Inl (MoveDenied ''id2'')
   \<and> fst (process_question CONFIG Map.empty 1
             (upload_of ''Upload Quote'' [''id1'', ''id2'', ''id3'']) example_world) = Inr ()
   \<and> new_calls example_world
        (snd (process_question CONFIG Map.empty 1
               (upload_of ''Upload Quote'' [''id1'', ''id2'', ''id3'']) example_world)) =
      [GetFileById ''id1'', SetName ''id1'' ''N-A - N-A - N-A - Upload Quote (1).pdf'', MoveTo ''id1'' 1,
       LoggerLog (LogRenamed ''quote.pdf'' ''N-A - N-A - N-A - Upload Quote (1).pdf'' 1),
       GetFileById ''id2'', SetName ''id2'' ''N-A - N-A - N-A - Upload Quote (2).pdf'', MoveTo ''id2'' 1,
       LoggerLog (LogFailed ''id2'' (MoveDenied ''id2'')),
       GetFileById ''id3'', SetName ''id3'' ''N-A - N-A - N-A - Upload Quote (3).JPG'', MoveTo ''id3'' 1,
       LoggerLog (LogRenamed ''photo.JPG'' ''N-A - N-A - N-A - Upload Quote (3).JPG'' 1)]
   \<and> map_option parent
        (files (snd (process_question CONFIG Map.empty 1
                      (upload_of ''Upload Quote'' [''id1'', ''id2'', ''id3'']) example_world)) ''id3'')
       = Some (Some 1)
   \<and> fst (processAndRenameFiles CONFIG example_submission 1 Map.empty example_world) = Inr ()"
proof -
  have u: "\<forall>r \<in> set example_submission. \<forall>s. itype r = FILE_UPLOAD \<and> response r = Str s \<longrightarrow> s = []"
    by (simp add: example_submission_def upload_of_def)
  have d: "distinct [''id1'', ''id2'', ''id3'']" by simp
  have r: "fst (route_file CONFIG ''Upload Quote'' Map.empty 1 3 (1, ''id2'') example_world)
       = Inl (MoveDenied ''id2'')"
    by code_simp
  have c1: "new_calls example_world
              (snd (process_file CONFIG ''Upload Quote'' Map.empty 1 (length [''id1'', ''id2'', ''id3'']) (0, ''id1'') example_world)) =
      [GetFileById ''id1'', SetName ''id1'' ''N-A - N-A - N-A - Upload Quote (1).pdf'', MoveTo ''id1'' 1,
       LoggerLog (LogRenamed ''quote.pdf'' ''N-A - N-A - N-A - Upload Quote (1).pdf'' 1)]"
    by code_simp
  have c2: "new_calls example_world
              (snd (process_file CONFIG ''Upload Quote'' Map.empty 1 (length [''id1'', ''id2'', ''id3''])
                      (1, ''id2'') example_world)) =
      [GetFileById ''id2'', SetName ''id2'' ''N-A - N-A - N-A - Upload Quote (2).pdf'', MoveTo ''id2'' 1,
       LoggerLog (LogFailed ''id2'' (MoveDenied ''id2''))]"
    by code_simp
  have c3: "new_calls example_world
              (snd (process_file CONFIG ''Upload Quote'' Map.empty 1 (length [''id1'', ''id2'', ''id3'']) (2, ''id3'') example_world)) =
      [GetFileById ''id3'', SetName ''id3'' ''N-A - N-A - N-A - Upload Quote (3).JPG'', MoveTo ''id3'' 1,
       LoggerLog (LogRenamed ''photo.JPG'' ''N-A - N-A - N-A - Upload Quote (3).JPG'' 1)]"
    by code_simp
  have f3: "map_option parent
              (files (snd (process_file CONFIG ''Upload Quote'' Map.empty 1 (length [''id1'', ''id2'', ''id3'']) (2, ''id3'') example_world))
                 ''id3'') = Some (Some 1)"
    by code_simp
  have e: "enumerate 0 [''id1'', ''id2'', ''id3''] = [(0, ''id1''), (1, ''id2''), (2, ''id3'')]"
    by simp
  note T = per_file_isolation [where cfg = CONFIG and t = "''Upload Quote''" and rm = Map.empty
      and d = 1 and fileIds = "[''id1'', ''id2'', ''id3'']" and w = example_world
      and n = 3 and p = "(1, ''id2'')" and w' = example_world and e = "MoveDenied ''id2''"
      and itemResponses = example_submission]
  from T u have
    whole: "fst (processAndRenameFiles CONFIG example_submission 1 Map.empty example_world) = Inr ()"
    by blast
  from T d have
    calls: "new_calls example_world
        (snd (process_question CONFIG Map.empty 1
               (upload_of ''Upload Quote'' [''id1'', ''id2'', ''id3'']) example_world)) =
       concat (map (\<lambda>q. new_calls example_world
                 (snd (process_file CONFIG ''Upload Quote'' Map.empty 1
                         (length [''id1'', ''id2'', ''id3'']) q example_world)))
               (enumerate 0 [''id1'', ''id2'', ''id3'']))"
    and fl: "\<forall>k < length [''id1'', ''id2'', ''id3''].
             files (snd (process_question CONFIG Map.empty 1
                      (upload_of ''Upload Quote'' [''id1'', ''id2'', ''id3'']) example_world))
               ([''id1'', ''id2'', ''id3''] ! k) =
             files (snd (process_file CONFIG ''Upload Quote'' Map.empty 1
                      (length [''id1'', ''id2'', ''id3'']) (k, [''id1'', ''id2'', ''id3''] ! k) example_world))
               ([''id1'', ''id2'', ''id3''] ! k)"
    and ok: "fst (process_question CONFIG Map.empty 1
             (upload_of ''Upload Quote'' [''id1'', ''id2'', ''id3'']) example_world) = Inr ()"
    by blast+
  have fl3: "files (snd (process_question CONFIG Map.empty 1
                      (upload_of ''Upload Quote'' [''id1'', ''id2'', ''id3'']) example_world)) ''id3'' =
             files (snd (process_file CONFIG ''Upload Quote'' Map.empty 1 (length [''id1'', ''id2'', ''id3'']) (2, ''id3'') example_world)) ''id3''"
    using fl [rule_format, of 2] by simp
  show ?thesis
    using d r ok whole calls c1 c2 c3 f3 fl3 unfolding e by simp
qed

text \<open>
  C6. On a standard question with distinct file ids, the file at position \<open>k\<close> (from 0)
  that exists and can be renamed receives the sanitized template text, then the suffix
  \<open>(k+1)\<close> in parentheses after a blank when more than one file was uploaded and no
  suffix when there is one file, then the extension of its original name.
\<close>

theorem disambiguation_numbering:
  "t \<noteq> SPECIAL_NAMING_QUESTION_TITLE cfg \<and> distinct fileIds \<and> k < length fileIds
   \<and> files w (fileIds ! k) = Some f \<and> can_rename f \<longrightarrow>
   map_option fname
     (files (snd (process_question cfg rm d (upload_of t fileIds) w)) (fileIds ! k)) =
   Some (sanitize (buildFromTemplate (FILE_NAME_TEMPLATE cfg) rm [''QuestionTitle'' \<mapsto> t])
         @ (if length fileIds > 1 then '' ('' @ string_of_nat (k + 1) @ '')'' else [])
         @ extension_of (fname f))"
proof (intro impI, elim conjE)
  let ?n = "length fileIds"
  let ?ps = "enumerate 0 fileIds"
  let ?run = "process_question cfg rm d (upload_of t fileIds) w"
  assume std: "t \<noteq> SPECIAL_NAMING_QUESTION_TITLE cfg" and dist: "distinct fileIds"
    and k: "k < length fileIds" and f: "files w (fileIds ! k) = Some f" and ren: "can_rename f"
  have d: "distinct (map snd ?ps)" using dist by simp
  have mem: "(k, fileIds ! k) \<in> set ?ps"
    using k by (simp add: in_set_enumerate_eq)
  have "files (snd ?run) (snd (k, fileIds ! k)) =
        fst (routed cfg t rm d ?n (k, fileIds ! k) (files w (snd (k, fileIds ! k))))"
    unfolding process_question_upload
    using forEach_process_file [OF d, of cfg t rm d ?n w] mem by blast
  then have "map_option fname (files (snd ?run) (fileIds ! k)) =
             Some (newFileName cfg t rm ?n k (fname f))"
    using f ren by (simp add: routed_def Let_def)
  then show "map_option fname (files (snd ?run) (fileIds ! k)) =
   Some (sanitize (buildFromTemplate (FILE_NAME_TEMPLATE cfg) rm [''QuestionTitle'' \<mapsto> t])
         @ (if length fileIds > 1 then '' ('' @ string_of_nat (k + 1) @ '')'' else [])
         @ extension_of (fname f))"
    unfolding newFileName_standard [OF std] .
qed

theorem disambiguation_numbering_witness:
  "''Upload Quote'' \<noteq> SPECIAL_NAMING_QUESTION_TITLE CONFIG
   \<and> distinct [''id1'', ''id2'', ''id3''] \<and> (1::nat) < length [''id1'', ''id2'', ''id3'']
   \<and> map_option fname (files example_world ([''id1'', ''id2'', ''id3''] ! 1)) = Some ''specs.pdf''
   \<and> map_option can_rename (files example_world ([''id1'', ''id2'', ''id3''] ! 1)) = Some True
   \<and> map_option fname
        (files (snd (process_question CONFIG Map.empty 1
                      (upload_of ''Upload Quote'' [''id1'', ''id2'', ''id3'']) example_world)) ''id2'')
       = Some ''N-A - N-A - N-A - Upload Quote (2).pdf''
   \<and> map_option fname
        (files (snd (process_question CONFIG Map.empty 1
                      (upload_of ''Upload Quote'' [''id3'']) example_world)) ''id3'')
       = Some ''N-A - N-A - N-A - Upload Quote.JPG''"
proof -
  have std: "''Upload Quote'' \<noteq> SPECIAL_NAMING_QUESTION_TITLE CONFIG"
    by (simp add: CONFIG_def)
  have f2: "files example_world ([''id1'', ''id2'', ''id3''] ! 1) =
            Some ((plain_file ''specs.pdf'')\<lparr>can_move := False\<rparr>)"
    by (simp add: example_world_def)
  have f3: "files example_world ([''id3''] ! 0) = Some (plain_file ''photo.JPG'')"
    by (simp add: example_world_def)
  have tpl: "sanitize (buildFromTemplate (FILE_NAME_TEMPLATE CONFIG) Map.empty
               [''QuestionTitle'' \<mapsto> ''Upload Quote'']) = ''N-A - N-A - N-A - Upload Quote''"
    by code_simp
  have e2: "extension_of ''specs.pdf'' = ''.pdf''" by code_simp
  have e3: "extension_of ''photo.JPG'' = ''.JPG''" by code_simp
  have n2: "string_of_nat (Suc (Suc 0)) = ''2''" by code_simp
  note A = disambiguation_numbering [where t = "''Upload Quote''" and cfg = CONFIG
      and fileIds = "[''id1'', ''id2'', ''id3'']" and k = 1 and w = example_world
      and f = "(plain_file ''specs.pdf'')\<lparr>can_move := False\<rparr>" and rm = Map.empty and d = 1]
  note B = disambiguation_numbering [where t = "''Upload Quote''" and cfg = CONFIG
      and fileIds = "[''id3'']" and k = 0 and w = example_world
      and f = "plain_file ''photo.JPG''" and rm = Map.empty and d = 1]
  have a: "map_option fname
        (files (snd (process_question CONFIG Map.empty 1
                      (upload_of ''Upload Quote'' [''id1'', ''id2'', ''id3'']) example_world)) ''id2'')
       = Some ''N-A - N-A - N-A - Upload Quote (2).pdf''"
    using A std f2 by (simp add: plain_file_def tpl e2 n2)
  have b: "map_option fname
        (files (snd (process_question CONFIG Map.empty 1
                      (upload_of ''Upload Quote'' [''id3'']) example_world)) ''id3'')
       = Some ''N-A - N-A - N-A - Upload Quote.JPG''"
    using B std f3 by (simp add: plain_file_def tpl e3)
  show ?thesis
    using std a b f2 by (simp add: plain_file_def)
qed

section \<open>Properties of the orchestrator\<close>

text \<open>
  C8. Whatever exception leaves the \<^verbatim>\<open>try\<close> block of the handler, the calls that follow
  it are the log entry and one mail to the administrator, carrying the error. When the
  lookup of the shared drive or the creation of the destination folder throws, that mail
  is the only mail call of the run; no file is looked up, renamed or moved, and the files
  and folders of the Drive are unchanged.
\<close>

theorem fatal_before_files:
  "(fst (submit_body cfg timestamp itemResponses w) = Inl e' \<longrightarrow>
      calls (snd (onFormSubmit cfg timestamp itemResponses w)) =
        calls (snd (submit_body cfg timestamp itemResponses w))
        @ [LoggerLog (LogError e'),
           SendEmail (ADMIN_EMAIL cfg) ''CRITICAL: Google Script Failure in Purchase Order Form''
             (FailureReport e')])
   \<and> ((fst (getFolderById (TARGET_SHARED_DRIVE_ID cfg) w) = Inl e
        \<or> (\<exists>targetDrive.
              fst (getFolderById (TARGET_SHARED_DRIVE_ID cfg) w) = Inr targetDrive
              \<and> fst (createFolder targetDrive (buildFolderName cfg itemResponses timestamp)
                       (snd (getFolderById (TARGET_SHARED_DRIVE_ID cfg) w))) = Inl e))
       \<longrightarrow>
       filter is_mail_call (new_calls w (snd (onFormSubmit cfg timestamp itemResponses w))) =
         [SendEmail (ADMIN_EMAIL cfg) ''CRITICAL: Google Script Failure in Purchase Order Form''
            (FailureReport e)]
       \<and> filter is_file_call (new_calls w (snd (onFormSubmit cfg timestamp itemResponses w))) = []
       \<and> files (snd (onFormSubmit cfg timestamp itemResponses w)) = files w
       \<and> folders (snd (onFormSubmit cfg timestamp itemResponses w)) = folders w)"
proof -
  have after: "calls (snd (onFormSubmit cfg timestamp itemResponses w)) =
        calls (snd (submit_body cfg timestamp itemResponses w))
        @ [LoggerLog (LogError e'),
           SendEmail (ADMIN_EMAIL cfg) ''CRITICAL: Google Script Failure in Purchase Order Form''
             (FailureReport e')]"
    if "fst (submit_body cfg timestamp itemResponses w) = Inl e'"
    using that
    by (cases "submit_body cfg timestamp itemResponses w")
       (simp add: onFormSubmit_def MailApp_sendEmail_def Logger_log_def called_def Let_def)
  have before: "filter is_mail_call (new_calls w (snd (onFormSubmit cfg timestamp itemResponses w))) =
         [SendEmail (ADMIN_EMAIL cfg) ''CRITICAL: Google Script Failure in Purchase Order Form''
            (FailureReport e)]
       \<and> filter is_file_call (new_calls w (snd (onFormSubmit cfg timestamp itemResponses w))) = []
       \<and> files (snd (onFormSubmit cfg timestamp itemResponses w)) = files w
       \<and> folders (snd (onFormSubmit cfg timestamp itemResponses w)) = folders w"
    if "fst (getFolderById (TARGET_SHARED_DRIVE_ID cfg) w) = Inl e
        \<or> (\<exists>targetDrive.
              fst (getFolderById (TARGET_SHARED_DRIVE_ID cfg) w) = Inr targetDrive
              \<and> fst (createFolder targetDrive (buildFolderName cfg itemResponses timestamp)
                       (snd (getFolderById (TARGET_SHARED_DRIVE_ID cfg) w))) = Inl e)"
    using that
    by (auto simp: onFormSubmit_def submit_body_def getFolderById_def createFolder_def
          MailApp_sendEmail_def Logger_log_def called_def new_calls_def Let_def
          is_mail_call_def is_file_call_def
        split: option.splits if_splits)
  show ?thesis
    using after before by blast
qed

theorem fatal_before_files_witness:
  "fst (getFolderById (TARGET_SHARED_DRIVE_ID CONFIG) read_only_world) = Inr 0
   \<and> fst (createFolder 0 (buildFolderName CONFIG example_submission ''20250101-0800'')
           (snd (getFolderById (TARGET_SHARED_DRIVE_ID CONFIG) read_only_world)))
       = Inl (CreateDenied 0)
   \<and> fst (submit_body CONFIG ''20250101-0800'' example_submission read_only_world)
       = Inl (CreateDenied 0)
   \<and> new_calls read_only_world
        (snd (onFormSubmit CONFIG ''20250101-0800'' example_submission read_only_world)) =
      [GetFolderById ''DriveID'', CreateFolder 0 ''20250101-0800_PENDING_Acme'',
       LoggerLog (LogError (CreateDenied 0)),
       SendEmail ''admin@email.com'' ''CRITICAL: Google Script Failure in Purchase Order Form''
         (FailureReport (CreateDenied 0))]
   \<and> filter is_mail_call
        (new_calls read_only_world
           (snd (onFormSubmit CONFIG ''20250101-0800'' example_submission read_only_world))) =
      [SendEmail (ADMIN_EMAIL CONFIG) ''CRITICAL: Google Script Failure in Purchase Order Form''
         (FailureReport (CreateDenied 0))]
   \<and> filter is_file_call
        (new_calls read_only_world
           (snd (onFormSubmit CONFIG ''20250101-0800'' example_submission read_only_world))) = []
   \<and> files (snd (onFormSubmit CONFIG ''20250101-0800'' example_submission read_only_world))
       = files read_only_world"
proof -
  have g: "fst (getFolderById (TARGET_SHARED_DRIVE_ID CONFIG) read_only_world) = Inr 0"
    by code_simp
  have c: "fst (createFolder 0 (buildFolderName CONFIG example_submission ''20250101-0800'')
           (snd (getFolderById (TARGET_SHARED_DRIVE_ID CONFIG) read_only_world)))
       = Inl (CreateDenied 0)"
    by code_simp
  have b: "fst (submit_body CONFIG ''20250101-0800'' example_submission read_only_world)
       = Inl (CreateDenied 0)"
    by code_simp
  have n: "new_calls read_only_world
        (snd (onFormSubmit CONFIG ''20250101-0800'' example_submission read_only_world)) =
      [GetFolderById ''DriveID'', CreateFolder 0 ''20250101-0800_PENDING_Acme'',
       LoggerLog (LogError (CreateDenied 0)),
       SendEmail ''admin@email.com'' ''CRITICAL: Google Script Failure in Purchase Order Form''
         (FailureReport (CreateDenied 0))]"
    by code_simp
  show ?thesis
    using g c b n
      fatal_before_files [where cfg = CONFIG and w = read_only_world and e = "CreateDenied 0"
        and e' = "CreateDenied 0" and itemResponses = example_submission and timestamp = "''20250101-0800''"]
    by blast
qed

end
